theory Spec2Isabelle
  imports Main "HOL-Library.AList" "HOL-Library.Sublist" "HOL-Library.Word"
begin

unbundle bit_operations_syntax

section \<open>The Node.js environment of the watcher\<close>

text \<open>
  The repository holds two copies of the watcher: \<^verbatim>\<open>src/unnamed/part_000\<close> (with
  directory targets, \<^verbatim>\<open>getFileStat\<close> and a timer only for a positive interval) and
  \<^verbatim>\<open>src/lib/index.js\<close> (without them). Functions that are the same text in both are defined once;
  where the two differ, the definition of \<^verbatim>\<open>part_000\<close> keeps the source's name and the
  one of \<^verbatim>\<open>lib/index.js\<close> carries the prefix \<open>lib_\<close>.

  Scope of the model: the file system answers each path with a regular file, a directory,
  or nothing; every regular file can be read; a file-system call runs atomically.
  \<^verbatim>\<open>console.log\<close> in \<^verbatim>\<open>pGetFileStat\<close> of \<^verbatim>\<open>part_000\<close> is left out. The caller's callback
  is a log of its invocations: it does not throw and does not call back into the watcher.
\<close>

type_synonym path = string
type_synonym byte = "8 word"

datatype fs_node =
    RegularFile "byte list" int   \<comment> \<open>content, modification time in ms\<close>
  | Directory nat int             \<comment> \<open>size reported by stat, modification time in ms\<close>

type_synonym filesystem = "path \<Rightarrow> fs_node option"

text \<open>
  \<^verbatim>\<open>Fs.Stats.mtime\<close> is a \<^verbatim>\<open>Date\<close> object. JavaScript's \<^verbatim>\<open>==\<close> and \<^verbatim>\<open>!=\<close> on two
  objects compare their identity, not their time value, so a date carries the identity
  \<open>oid\<close> it got when \<^verbatim>\<open>Fs.statSync\<close> created it.
\<close>

record date =
  oid :: nat
  time_ms :: int

datatype file_kind = KFile | KDirectory

record stats =
  stat_kind :: file_kind
  stat_size :: nat
  stat_mtime :: date
  stat_crc32 :: "32 word option"   \<comment> \<open>the property \<^verbatim>\<open>crc32\<close>; \<open>None\<close> is \<^verbatim>\<open>undefined\<close>\<close>

definition isFile :: "stats \<Rightarrow> bool" where
  "isFile st = (stat_kind st = KFile)"

definition isDirectory :: "stats \<Rightarrow> bool" where
  "isDirectory st = (stat_kind st = KDirectory)"

datatype js_error = TypeError | ReferenceError | EISDIR | ENOENT

datatype 'a completion = Return 'a | Throw js_error

datatype js_value = Undefined | Null | Number "32 word" | StatsObj stats

text \<open>One invocation of the callback: event, path, third argument.\<close>

type_synonym call = "string option \<times> path \<times> js_value"

record file_stub =
  name :: path
  stat :: "stats option"   \<comment> \<open>\<open>None\<close> is \<^verbatim>\<open>null\<close>\<close>

text \<open>
  A directory stub. \<open>watchDir\<close> is only ever tested for truthiness, so \<^verbatim>\<open>undefined\<close> (the
  property is missing until a directory is watched) and \<^verbatim>\<open>false\<close> are both \<open>False\<close>.
\<close>

record dir_stub =
  handler :: "nat option"   \<comment> \<open>the \<^verbatim>\<open>FSWatcher\<close> handle, \<open>None\<close> is \<^verbatim>\<open>null\<close>\<close>
  count :: int
  watchDir :: bool

record options =
  opt_interval :: int
  opt_validate :: bool
  opt_fullName :: bool

definition default_options :: options where
  "default_options = \<lparr>opt_interval = 10000, opt_validate = False, opt_fullName = True\<rparr>"

text \<open>
  The watcher object together with the world it runs in. \<open>pFiles\<close> and \<open>pWatchers\<close>
  (\<^verbatim>\<open>pDirs\<close> in \<^verbatim>\<open>lib/index.js\<close>) are JavaScript objects used as dictionaries: association
  lists in insertion order, which is the order of \<^verbatim>\<open>for ... in\<close>. Their keys are
  absolute paths, so none of them meets a property inherited from \<^verbatim>\<open>Object.prototype\<close>.
\<close>

record state =
  pFiles :: "(path \<times> file_stub) list"
  pWatchers :: "(path \<times> dir_stub) list"
  pOptions :: options
  pTimer :: "int option"                \<comment> \<open>the interval of the installed timer\<close>
  called :: "call list"                 \<comment> \<open>invocations of \<^verbatim>\<open>pCallback\<close>, oldest first\<close>
  fs :: filesystem
  next_oid :: nat
  fs_watches :: "(nat \<times> path) list"     \<comment> \<open>the open native handles and their directories\<close>
  next_handle :: nat

text \<open>
  What the watcher takes from \<^verbatim>\<open>path\<close> and \<^verbatim>\<open>sse4_crc32\<close>: parameters of the model.
\<close>

record node_lib =
  Path_resolve :: "path \<Rightarrow> path"
  Path_dirname :: "path \<Rightarrow> path"
  crc32 :: "byte list \<Rightarrow> 32 word"

definition kFileChangeEventName :: string where "kFileChangeEventName = ''change''"
definition kFileRenameEventName :: string where "kFileRenameEventName = ''rename''"
definition kFileRemoveEventName :: string where "kFileRemoveEventName = ''remove''"
definition kFileCreateEventName :: string where "kFileCreateEventName = ''create''"

text \<open>\<^verbatim>\<open>if (evt)\<close>: \<^verbatim>\<open>null\<close> and the empty string are falsy.\<close>

definition truthy :: "string option \<Rightarrow> bool" where
  "truthy e = (case e of None \<Rightarrow> False | Some v \<Rightarrow> v \<noteq> [])"

definition js_of_stat :: "stats option \<Rightarrow> js_value" where
  "js_of_stat st = (case st of None \<Rightarrow> Null | Some v \<Rightarrow> StatsObj v)"

definition js_of_crc32 :: "32 word option \<Rightarrow> js_value" where
  "js_of_crc32 c = (case c of None \<Rightarrow> Undefined | Some v \<Rightarrow> Number v)"

text \<open>Sequencing: an exception ends the computation and keeps the state reached.\<close>

definition andThen ::
  "'a completion \<times> state \<Rightarrow> ('a \<Rightarrow> state \<Rightarrow> 'b completion \<times> state) \<Rightarrow> 'b completion \<times> state"
where
  "andThen m k = (case m of (Return x, s) \<Rightarrow> k x s | (Throw e, s) \<Rightarrow> (Throw e, s))"

fun forEach ::
  "('a \<Rightarrow> state \<Rightarrow> unit completion \<times> state) \<Rightarrow> 'a list \<Rightarrow> state \<Rightarrow> unit completion \<times> state"
where
  "forEach f [] s = (Return (), s)"
| "forEach f (x # xs) s =
     (case f x s of (Return _, s') \<Rightarrow> forEach f xs s' | (Throw e, s') \<Rightarrow> (Throw e, s'))"

subsection \<open>The calls into \<^verbatim>\<open>fs\<close>\<close>

definition existsSync :: "state \<Rightarrow> path \<Rightarrow> bool" where
  "existsSync s p = (fs s p \<noteq> None)"

definition stats_of :: "fs_node \<Rightarrow> nat \<Rightarrow> stats" where
  "stats_of node i =
     (case node of
        RegularFile buf t \<Rightarrow>
          \<lparr>stat_kind = KFile, stat_size = length buf,
           stat_mtime = \<lparr>oid = i, time_ms = t\<rparr>, stat_crc32 = None\<rparr>
      | Directory n t \<Rightarrow>
          \<lparr>stat_kind = KDirectory, stat_size = n,
           stat_mtime = \<lparr>oid = i, time_ms = t\<rparr>, stat_crc32 = None\<rparr>)"

definition statSync :: "path \<Rightarrow> state \<Rightarrow> stats completion \<times> state" where
  "statSync p s =
     (case fs s p of
        None \<Rightarrow> (Throw ENOENT, s)
      | Some node \<Rightarrow> (Return (stats_of node (next_oid s)), s\<lparr>next_oid := Suc (next_oid s)\<rparr>))"

definition readFileSync :: "path \<Rightarrow> state \<Rightarrow> byte list completion \<times> state" where
  "readFileSync p s =
     (case fs s p of
        None \<Rightarrow> (Throw ENOENT, s)
      | Some (RegularFile buf t) \<Rightarrow> (Return buf, s)
      | Some (Directory n t) \<Rightarrow> (Throw EISDIR, s))"

definition Fs_watch :: "path \<Rightarrow> state \<Rightarrow> nat completion \<times> state" where
  "Fs_watch dir s =
     (if fs s dir = None then (Throw ENOENT, s)
      else (Return (next_handle s),
            s\<lparr>fs_watches := fs_watches s @ [(next_handle s, dir)],
              next_handle := Suc (next_handle s)\<rparr>))"

definition close :: "nat \<Rightarrow> state \<Rightarrow> state" where
  "close h s = s\<lparr>fs_watches := filter (\<lambda>w. fst w \<noteq> h) (fs_watches s)\<rparr>"

section \<open>The watcher of \<^verbatim>\<open>part_000\<close>\<close>

definition FileWatcher :: "options \<Rightarrow> filesystem \<Rightarrow> state" where
  "FileWatcher opts fs0 =
     \<lparr>pFiles = [], pWatchers = [], pOptions = opts,
      pTimer = (if opt_interval opts > 0 then Some (opt_interval opts) else None),
      called = [], fs = fs0, next_oid = 0, fs_watches = [], next_handle = 0\<rparr>"

definition pCallback :: "string option \<Rightarrow> path \<Rightarrow> js_value \<Rightarrow> state \<Rightarrow> state" where
  "pCallback evt p arg s = s\<lparr>called := called s @ [(evt, p, arg)]\<rparr>"

definition pGetFileStat :: "node_lib \<Rightarrow> path \<Rightarrow> state \<Rightarrow> stats option completion \<times> state" where
  "pGetFileStat L file s =
     (if \<not> existsSync s file then (Return None, s)
      else andThen (statSync file s) (\<lambda>st s.
        if isFile st then
          if opt_validate (pOptions s) then
            andThen (readFileSync file s) (\<lambda>buf s.
              (Return (Some (st\<lparr>stat_crc32 := Some (crc32 L buf)\<rparr>)), s))
          else (Return (Some st), s)
        else (Return (Some st), s)))"

definition pWatchDir :: "path \<Rightarrow> state \<Rightarrow> unit completion \<times> state" where
  "pWatchDir dir s =
     (case map_of (pWatchers s) dir of
        None \<Rightarrow> (Throw TypeError, s)
      | Some w \<Rightarrow>
          if handler w \<noteq> None \<or> \<not> existsSync s dir then (Return (), s)
          else andThen (Fs_watch dir s) (\<lambda>h s.
            (Return (),
             s\<lparr>pWatchers := AList.update dir (w\<lparr>handler := Some h\<rparr>) (pWatchers s)\<rparr>)))"

definition pUnwatchDir :: "path \<Rightarrow> state \<Rightarrow> unit completion \<times> state" where
  "pUnwatchDir dir s =
     (case map_of (pWatchers s) dir of
        None \<Rightarrow> (Throw TypeError, s)
      | Some w \<Rightarrow>
          (case handler w of
             None \<Rightarrow> (Return (), s)
           | Some h \<Rightarrow>
               (Return (),
                (close h s)\<lparr>pWatchers := AList.update dir (w\<lparr>handler := None\<rparr>) (pWatchers s)\<rparr>)))"

text \<open>
  The second half of \<^verbatim>\<open>watch\<close>: the stub of \<open>dir\<close> is created and its directory
  watched if there is none yet, then \<open>watchDir\<close> is set or \<open>count\<close> incremented.
\<close>

definition enter_group :: "path \<Rightarrow> bool \<Rightarrow> state \<Rightarrow> unit completion \<times> state" where
  "enter_group dir wDir s =
     andThen
       (if map_of (pWatchers s) dir = None
        then pWatchDir dir
               (s\<lparr>pWatchers := AList.update dir
                    \<lparr>handler = None, count = 0, watchDir = False\<rparr> (pWatchers s)\<rparr>)
        else (Return (), s))
       (\<lambda>_ s.
          case map_of (pWatchers s) dir of
            None \<Rightarrow> (Throw TypeError, s)
          | Some w \<Rightarrow>
              if wDir
              then (Return (),
                    s\<lparr>pWatchers := AList.update dir (w\<lparr>watchDir := True\<rparr>) (pWatchers s)\<rparr>)
              else (Return (),
                    s\<lparr>pWatchers := AList.update dir (w\<lparr>count := count w + 1\<rparr>) (pWatchers s)\<rparr>))"

text \<open>
  \<^verbatim>\<open>watch\<close>: the stub is stored in \<open>pFiles\<close> before \<^verbatim>\<open>stub.stat.isDirectory()\<close> is
  evaluated, which is a \<^verbatim>\<open>TypeError\<close> when the stat is \<^verbatim>\<open>null\<close>. A stat of this model is a
  directory or a regular file, so the \<^verbatim>\<open>else if (stub.stat.isFile())\<close> is the last branch.
\<close>

definition watch :: "node_lib \<Rightarrow> path \<Rightarrow> state \<Rightarrow> unit completion \<times> state" where
  "watch L file s =
     (let fullName = Path_resolve L file in
      if map_of (pFiles s) fullName \<noteq> None then (Return (), s)
      else andThen (pGetFileStat L fullName s) (\<lambda>st s.
        let stub = \<lparr>name = (if opt_fullName (pOptions s) then fullName else file), stat = st\<rparr>;
            s = s\<lparr>pFiles := AList.update fullName stub (pFiles s)\<rparr>
        in case st of
             None \<Rightarrow> (Throw TypeError, s)
           | Some v \<Rightarrow>
               if isDirectory v then enter_group fullName True s
               else enter_group (Path_dirname L fullName @ ''/'') False s))"

text \<open>
  \<^verbatim>\<open>unwatch\<close>: the last statement names a variable \<^verbatim>\<open>dir\<close> that neither the function nor
  the module declares, so evaluating \<^verbatim>\<open>this.pUnwatchDir(dir)\<close> is a \<^verbatim>\<open>ReferenceError\<close>.
\<close>

definition unwatch :: "node_lib \<Rightarrow> path \<Rightarrow> state \<Rightarrow> unit completion \<times> state" where
  "unwatch L file s =
     (let fullName = Path_resolve L file in
      if map_of (pFiles s) fullName = None then (Return (), s)
      else
        let s = s\<lparr>pFiles := AList.delete fullName (pFiles s)\<rparr>;
            key = (if map_of (pWatchers s) fullName \<noteq> None then fullName
                   else Path_dirname L fullName @ ''/'')
        in case map_of (pWatchers s) key of
             None \<Rightarrow> (Throw TypeError, s)
           | Some w \<Rightarrow>
               let stub = (if map_of (pWatchers s) fullName \<noteq> None
                           then w\<lparr>watchDir := False\<rparr> else w\<lparr>count := count w - 1\<rparr>);
                   s = s\<lparr>pWatchers := AList.update key stub (pWatchers s)\<rparr>
               in if count stub = 0 \<and> \<not> watchDir stub then (Throw ReferenceError, s)
                  else (Return (), s))"

definition pCheckFileExistenceChange ::
  "path \<Rightarrow> stats option \<Rightarrow> state \<Rightarrow> string option completion"
where
  "pCheckFileExistenceChange fullName nstat s =
     (case map_of (pFiles s) fullName of
        None \<Rightarrow> Throw TypeError
      | Some file \<Rightarrow>
          Return (if (stat file \<noteq> None) \<noteq> (nstat \<noteq> None)
                  then (if nstat \<noteq> None then Some kFileCreateEventName
                        else Some kFileRemoveEventName)
                  else None))"

text \<open>
  The event that \<^verbatim>\<open>pHandleChange\<close> ends up with for a watched path, a \<^verbatim>\<open>TypeError\<close> where
  \<^verbatim>\<open>nstat.size\<close> or \<^verbatim>\<open>file.stat.size\<close> is read from \<^verbatim>\<open>null\<close>.
\<close>

definition classify ::
  "path \<Rightarrow> string option \<Rightarrow> file_stub \<Rightarrow> stats option \<Rightarrow> state \<Rightarrow> string option completion"
where
  "classify fullName evt file nstat s =
     (if evt = Some kFileRenameEventName then
        (case pCheckFileExistenceChange fullName nstat s of
           Throw e \<Rightarrow> Throw e
         | Return r \<Rightarrow> Return (if truthy r then r else evt))
      else if evt = Some kFileChangeEventName then
        (if opt_validate (pOptions s) then
           (case nstat of
              None \<Rightarrow> Throw TypeError
            | Some n \<Rightarrow>
                (case stat file of
                   None \<Rightarrow> Throw TypeError
                 | Some old \<Rightarrow>
                     Return (if stat_size n = stat_size old \<and> stat_crc32 n = stat_crc32 old
                             then None else evt)))
         else Return evt)
      else Return evt)"

definition handle_watched ::
  "(path \<Rightarrow> state \<Rightarrow> stats option completion \<times> state) \<Rightarrow> path \<Rightarrow> string option \<Rightarrow> file_stub
     \<Rightarrow> state \<Rightarrow> unit completion \<times> state"
where
  "handle_watched probe fullName evt file s =
     andThen (probe fullName s) (\<lambda>nstat s.
       case classify fullName evt file nstat s of
         Throw e \<Rightarrow> (Throw e, s)
       | Return evt \<Rightarrow>
           let s = s\<lparr>pFiles := AList.update fullName (file\<lparr>stat := nstat\<rparr>) (pFiles s)\<rparr>
           in if truthy evt then (Return (), pCallback evt (name file) (js_of_stat nstat) s)
              else (Return (), s))"

definition pHandleChange ::
  "node_lib \<Rightarrow> path \<Rightarrow> string option \<Rightarrow> string \<Rightarrow> state \<Rightarrow> unit completion \<times> state"
where
  "pHandleChange L dir evt file s =
     (let fullName = dir @ file in
      case map_of (pFiles s) fullName of
        Some f \<Rightarrow> handle_watched (pGetFileStat L) fullName evt f s
      | None \<Rightarrow>
          (case map_of (pWatchers s) dir of
             None \<Rightarrow> (Throw TypeError, s)
           | Some w \<Rightarrow>
               if watchDir w then (Return (), pCallback evt fullName Undefined s)
               else (Return (), s)))"

text \<open>
  \<^verbatim>\<open>pCheckFolders\<close>, \<^verbatim>\<open>reset\<close>, \<^verbatim>\<open>save\<close> and \<^verbatim>\<open>restore\<close> are the same text in both files;
  the first and the last take the version's \<^verbatim>\<open>pHandleChange\<close> and \<^verbatim>\<open>watch\<close>.
\<close>

definition check_folder ::
  "(path \<Rightarrow> string option \<Rightarrow> string \<Rightarrow> state \<Rightarrow> unit completion \<times> state) \<Rightarrow> path \<Rightarrow> state
     \<Rightarrow> unit completion \<times> state"
where
  "check_folder hc dir s =
     (case map_of (pWatchers s) dir of
        None \<Rightarrow> (Throw TypeError, s)
      | Some w \<Rightarrow>
          let exist = existsSync s dir in
          if (handler w \<noteq> None) \<noteq> exist then
            andThen (if exist then pWatchDir dir s else pUnwatchDir dir s) (\<lambda>_ s.
              forEach
                (\<lambda>fullName s.
                   if prefix dir fullName
                   then hc dir (Some ''rename'') (drop (length dir) fullName) s
                   else (Return (), s))
                (map fst (pFiles s)) s)
          else (Return (), s))"

definition check_folders ::
  "(path \<Rightarrow> string option \<Rightarrow> string \<Rightarrow> state \<Rightarrow> unit completion \<times> state) \<Rightarrow> state
     \<Rightarrow> unit completion \<times> state"
where
  "check_folders hc s = forEach (check_folder hc) (map fst (pWatchers s)) s"

definition pCheckFolders :: "node_lib \<Rightarrow> state \<Rightarrow> unit completion \<times> state" where
  "pCheckFolders L s = check_folders (pHandleChange L) s"

definition reset :: "state \<Rightarrow> unit completion \<times> state" where
  "reset s =
     andThen (forEach pUnwatchDir (map fst (pWatchers s)) s) (\<lambda>_ s.
       (Return (), s\<lparr>pFiles := [], pWatchers := []\<rparr>))"

text \<open>
  Modelled from the spec: \<^verbatim>\<open>$valueCopy\<close> of the package \<^verbatim>\<open>apollojs\<close> is not in the
  repository; the spec has \<^verbatim>\<open>save()\<close> return a deep copy of the mapping, which for the
  values of this model is the mapping itself.
\<close>

definition save :: "state \<Rightarrow> (path \<times> file_stub) list" where
  "save s = pFiles s"

definition getFileStat :: "node_lib \<Rightarrow> path \<Rightarrow> state \<Rightarrow> js_value" where
  "getFileStat L file s =
     (case map_of (pFiles s) (Path_resolve L file) of
        None \<Rightarrow> Undefined
      | Some f \<Rightarrow> js_of_stat (stat f))"

text \<open>
  The event \<^verbatim>\<open>restore\<close> computes from the saved and the new stat. \<^verbatim>\<open>nstat.mtime != stat.mtime\<close>
  compares two \<^verbatim>\<open>Date\<close> objects, that is, their identities.
\<close>

definition restore_event :: "bool \<Rightarrow> stats option \<Rightarrow> stats option \<Rightarrow> string option" where
  "restore_event val st nstat =
     (if (st \<noteq> None) \<noteq> (nstat \<noteq> None) then
        (if nstat \<noteq> None then Some kFileCreateEventName else Some kFileRemoveEventName)
      else
        (case (nstat, st) of
           (Some n, Some old) \<Rightarrow>
             (if val then
                (if stat_size n \<noteq> stat_size old \<or> stat_crc32 n \<noteq> stat_crc32 old
                 then Some kFileChangeEventName else None)
              else
                (if oid (stat_mtime n) \<noteq> oid (stat_mtime old)
                 then Some kFileChangeEventName else None))
         | _ \<Rightarrow> None))"

definition restore_entry ::
  "(path \<Rightarrow> state \<Rightarrow> unit completion \<times> state) \<Rightarrow> (path \<times> file_stub) list \<Rightarrow> path \<Rightarrow> state
     \<Rightarrow> unit completion \<times> state"
where
  "restore_entry w files fullName s =
     andThen (w fullName s) (\<lambda>_ s.
       case map_of files fullName of
         None \<Rightarrow> (Throw TypeError, s)
       | Some saved \<Rightarrow>
           (case map_of (pFiles s) fullName of
              None \<Rightarrow> (Throw TypeError, s)
            | Some f \<Rightarrow>
                let evt = restore_event (opt_validate (pOptions s)) (stat saved) (stat f) in
                if truthy evt then
                  (case stat f of
                     None \<Rightarrow> (Throw TypeError, s)
                   | Some n \<Rightarrow> (Return (), pCallback evt fullName (js_of_crc32 (stat_crc32 n)) s))
                else (Return (), s)))"

definition restore_with ::
  "(path \<Rightarrow> state \<Rightarrow> unit completion \<times> state) \<Rightarrow> (path \<times> file_stub) list \<Rightarrow> state
     \<Rightarrow> unit completion \<times> state"
where
  "restore_with w files s =
     andThen (reset s) (\<lambda>_ s. forEach (restore_entry w files) (map fst files) s)"

definition restore :: "node_lib \<Rightarrow> (path \<times> file_stub) list \<Rightarrow> state \<Rightarrow> unit completion \<times> state" where
  "restore L files s = restore_with (watch L) files s"

section \<open>The watcher of \<^verbatim>\<open>lib/index.js\<close>\<close>

text \<open>The timer is installed whatever the interval.\<close>

definition lib_FileWatcher :: "options \<Rightarrow> filesystem \<Rightarrow> state" where
  "lib_FileWatcher opts fs0 =
     \<lparr>pFiles = [], pWatchers = [], pOptions = opts, pTimer = Some (opt_interval opts),
      called = [], fs = fs0, next_oid = 0, fs_watches = [], next_handle = 0\<rparr>"

text \<open>No \<^verbatim>\<open>isFile\<close> test before the file is read.\<close>

definition lib_pGetFileStat ::
  "node_lib \<Rightarrow> path \<Rightarrow> state \<Rightarrow> stats option completion \<times> state"
where
  "lib_pGetFileStat L file s =
     (if \<not> existsSync s file then (Return None, s)
      else andThen (statSync file s) (\<lambda>st s.
        if opt_validate (pOptions s) then
          andThen (readFileSync file s) (\<lambda>buf s.
            (Return (Some (st\<lparr>stat_crc32 := Some (crc32 L buf)\<rparr>)), s))
        else (Return (Some st), s)))"

definition lib_watch :: "node_lib \<Rightarrow> path \<Rightarrow> state \<Rightarrow> unit completion \<times> state" where
  "lib_watch L file s =
     (let fullName = Path_resolve L file in
      if map_of (pFiles s) fullName \<noteq> None then (Return (), s)
      else andThen (lib_pGetFileStat L fullName s) (\<lambda>st s.
        let stub = \<lparr>name = (if opt_fullName (pOptions s) then fullName else file), stat = st\<rparr>;
            s = s\<lparr>pFiles := AList.update fullName stub (pFiles s)\<rparr>
        in enter_group (Path_dirname L fullName @ ''/'') False s))"

definition lib_unwatch :: "node_lib \<Rightarrow> path \<Rightarrow> state \<Rightarrow> unit completion \<times> state" where
  "lib_unwatch L file s =
     (let fullName = Path_resolve L file in
      if map_of (pFiles s) fullName = None then (Return (), s)
      else
        let s = s\<lparr>pFiles := AList.delete fullName (pFiles s)\<rparr>;
            dir = Path_dirname L fullName @ ''/''
        in case map_of (pWatchers s) dir of
             None \<Rightarrow> (Throw TypeError, s)
           | Some w \<Rightarrow>
               let s = s\<lparr>pWatchers := AList.update dir (w\<lparr>count := count w - 1\<rparr>) (pWatchers s)\<rparr>
               in if count w - 1 = 0
                  then andThen (pUnwatchDir dir s) (\<lambda>_ s.
                         (Return (), s\<lparr>pWatchers := AList.delete dir (pWatchers s)\<rparr>))
                  else (Return (), s))"

definition lib_pHandleChange ::
  "node_lib \<Rightarrow> path \<Rightarrow> string option \<Rightarrow> string \<Rightarrow> state \<Rightarrow> unit completion \<times> state"
where
  "lib_pHandleChange L dir evt file s =
     (let fullName = dir @ file in
      case map_of (pFiles s) fullName of
        None \<Rightarrow> (Return (), s)
      | Some f \<Rightarrow> handle_watched (lib_pGetFileStat L) fullName evt f s)"

definition lib_pCheckFolders :: "node_lib \<Rightarrow> state \<Rightarrow> unit completion \<times> state" where
  "lib_pCheckFolders L s = check_folders (lib_pHandleChange L) s"

definition lib_restore ::
  "node_lib \<Rightarrow> (path \<times> file_stub) list \<Rightarrow> state \<Rightarrow> unit completion \<times> state"
where
  "lib_restore L files s = restore_with (lib_watch L) files s"

section \<open>A concrete environment\<close>

text \<open>
  \<^verbatim>\<open>sse4_crc32.calculate\<close> is the CRC-32C checksum (Castagnoli polynomial, reflected,
  initial value and final xor \<open>0xFFFFFFFF\<close>), here bit by bit.
\<close>

definition crc32c_bit :: "32 word \<Rightarrow> 32 word" where
  "crc32c_bit c = (if bit c 0 then drop_bit 1 c XOR 0x82F63B78 else drop_bit 1 c)"

definition crc32c_byte :: "32 word \<Rightarrow> byte \<Rightarrow> 32 word" where
  "crc32c_byte c b =
     crc32c_bit (crc32c_bit (crc32c_bit (crc32c_bit (crc32c_bit (crc32c_bit (crc32c_bit
       (crc32c_bit (c XOR ucast b))))))))"

definition crc32c :: "byte list \<Rightarrow> 32 word" where
  "crc32c buf = foldl crc32c_byte 0xFFFFFFFF buf XOR 0xFFFFFFFF"

text \<open>
  \<^verbatim>\<open>Path.dirname\<close> and \<^verbatim>\<open>Path.resolve\<close> on absolute, normalised POSIX paths: the former
  cuts the last component, the latter returns such a path as it is.
\<close>

definition posix_dirname :: "path \<Rightarrow> path" where
  "posix_dirname p =
     (let d = rev (drop 1 (dropWhile (\<lambda>c. c \<noteq> CHR ''/'') (rev p)))
      in if d = [] then ''/'' else d)"

definition posix :: node_lib where
  "posix = \<lparr>Path_resolve = (\<lambda>p. p), Path_dirname = posix_dirname, crc32 = crc32c\<rparr>"

section \<open>What the probe and the classifier compute\<close>

text \<open>
  The stat that a probe returns for a node of the file system: a fingerprint is attached to
  a regular file when validation is on.
\<close>

definition probed :: "node_lib \<Rightarrow> bool \<Rightarrow> fs_node \<Rightarrow> nat \<Rightarrow> stats" where
  "probed L val node i =
     (case node of
        RegularFile buf t \<Rightarrow>
          \<lparr>stat_kind = KFile, stat_size = length buf, stat_mtime = \<lparr>oid = i, time_ms = t\<rparr>,
           stat_crc32 = (if val then Some (crc32 L buf) else None)\<rparr>
      | Directory n t \<Rightarrow>
          \<lparr>stat_kind = KDirectory, stat_size = n, stat_mtime = \<lparr>oid = i, time_ms = t\<rparr>,
           stat_crc32 = None\<rparr>)"

text \<open>The event sent for a raw \<^verbatim>\<open>rename\<close>, from the stored and the new stat.\<close>

definition rename_event :: "stats option \<Rightarrow> stats option \<Rightarrow> string" where
  "rename_event old new =
     (if old = None \<and> new \<noteq> None then ''create''
      else if old \<noteq> None \<and> new = None then ''remove''
      else ''rename'')"

section \<open>Runs of the watcher\<close>

text \<open>
  What can happen to a watcher: a call of a public operation, a tick of the interval timer
  (only when one is installed), a delivery from a native handle, and a change of the file
  system. A call that throws leaves the state it reached; the run goes on from there.
  Deliveries are not tied to an open handle, so a run may even contain deliveries that a
  closed handle would no longer make.
\<close>

datatype action =
    Watch path
  | Unwatch path
  | GetFileStat path
  | Save
  | Restore "(path \<times> file_stub) list"
  | Reset
  | Tick
  | Native path "string option" string
  | FsChange filesystem

definition step :: "node_lib \<Rightarrow> state \<Rightarrow> action \<Rightarrow> state" where
  "step L s a =
     (case a of
        Watch p \<Rightarrow> snd (watch L p s)
      | Unwatch p \<Rightarrow> snd (unwatch L p s)
      | GetFileStat p \<Rightarrow> s
      | Save \<Rightarrow> s
      | Restore files \<Rightarrow> snd (restore L files s)
      | Reset \<Rightarrow> snd (reset s)
      | Tick \<Rightarrow> (if pTimer s = None then s else snd (pCheckFolders L s))
      | Native dir evt file \<Rightarrow> snd (pHandleChange L dir evt file s)
      | FsChange fs' \<Rightarrow> s\<lparr>fs := fs'\<rparr>)"

definition lib_step :: "node_lib \<Rightarrow> state \<Rightarrow> action \<Rightarrow> state" where
  "lib_step L s a =
     (case a of
        Watch p \<Rightarrow> snd (lib_watch L p s)
      | Unwatch p \<Rightarrow> snd (lib_unwatch L p s)
      | GetFileStat p \<Rightarrow> s
      | Save \<Rightarrow> s
      | Restore files \<Rightarrow> snd (lib_restore L files s)
      | Reset \<Rightarrow> snd (reset s)
      | Tick \<Rightarrow> (if pTimer s = None then s else snd (lib_pCheckFolders L s))
      | Native dir evt file \<Rightarrow> snd (lib_pHandleChange L dir evt file s)
      | FsChange fs' \<Rightarrow> s\<lparr>fs := fs'\<rparr>)"

definition run :: "node_lib \<Rightarrow> action list \<Rightarrow> state \<Rightarrow> state" where
  "run L acts s = foldl (step L) s acts"

definition lib_run :: "node_lib \<Rightarrow> action list \<Rightarrow> state \<Rightarrow> state" where
  "lib_run L acts s = foldl (lib_step L) s acts"

text \<open>The actions that call \<^verbatim>\<open>watch\<close>.\<close>

fun calls_watch :: "action \<Rightarrow> bool" where
  "calls_watch (Watch p) = True"
| "calls_watch (Restore files) = True"
| "calls_watch a = False"

text \<open>
  Every open native handle is the handle of some directory stub: the invariant behind
  \<^verbatim>\<open>reset\<close> releasing all of them.
\<close>

definition live_handles :: "state \<Rightarrow> nat set" where
  "live_handles s = {h. \<exists>d w. map_of (pWatchers s) d = Some w \<and> handler w = Some h}"

definition handles_owned :: "state \<Rightarrow> bool" where
  "handles_owned s \<longleftrightarrow> fst ` set (fs_watches s) \<subseteq> live_handles s"

definition kept :: "bool \<Rightarrow> int option \<Rightarrow> options \<Rightarrow> state \<Rightarrow> bool" where
  "kept own tm opts s \<longleftrightarrow> pTimer s = tm \<and> pOptions s = opts \<and> (own \<longrightarrow> handles_owned s)"

text \<open>Every directory stub counts at least one watched file.\<close>

definition counted :: "state \<Rightarrow> bool" where
  "counted s \<longleftrightarrow> (\<forall>d w. map_of (pWatchers s) d = Some w \<longrightarrow> 0 < count w)"

text \<open>A watcher with nothing registered.\<close>

definition idle :: "state \<Rightarrow> bool" where
  "idle s \<longleftrightarrow> pFiles s = [] \<and> pWatchers s = []"

section \<open>A small file system to run the watcher on\<close>

text \<open>
  The directory \<^verbatim>\<open>/a\<close> with the files \<^verbatim>\<open>f\<close> (content and modification time given) and
  \<^verbatim>\<open>g\<close>; the directory answers with and without the trailing slash.
\<close>

definition fs_demo :: "byte list \<Rightarrow> int \<Rightarrow> filesystem" where
  "fs_demo buf t =
     map_of [(''/a/'', Directory 4096 7), (''/a'', Directory 4096 7),
             (''/a/f'', RegularFile buf t), (''/a/g'', RegularFile [1, 2] 12)]"

definition fs_none :: filesystem where
  "fs_none = (\<lambda>p. None)"

definition validating :: options where
  "validating = default_options\<lparr>opt_validate := True\<rparr>"

definition fs_dir_only :: filesystem where
  "fs_dir_only = map_of [(''/a/'', Directory 4096 7), (''/a'', Directory 4096 7)]"

text \<open>A watcher of each copy that watches \<^verbatim>\<open>/a/f\<close> with the given content.\<close>

definition watching_f :: "options \<Rightarrow> byte list \<Rightarrow> state" where
  "watching_f opts buf = snd (watch posix ''/a/f'' (FileWatcher opts (fs_demo buf 11)))"

definition lib_watching_f :: "options \<Rightarrow> byte list \<Rightarrow> state" where
  "lib_watching_f opts buf = snd (lib_watch posix ''/a/f'' (lib_FileWatcher opts (fs_demo buf 11)))"

section \<open>Lemmas\<close>

subsection \<open>Sequencing\<close>

lemma andThen_Return [simp]: "andThen (Return x, s) k = k x s"
  by (simp add: andThen_def)

lemma andThen_Throw [simp]: "andThen (Throw e, s) k = (Throw e, s)"
  by (simp add: andThen_def)

lemma andThen_preserves:
  assumes "P (snd m)" and "\<And>x t. P t \<Longrightarrow> P (snd (k x t))"
  shows "P (snd (andThen m k))"
proof (cases m)
  case (Pair r t)
  with assms show ?thesis by (cases r) simp_all
qed

lemma forEach_preserves:
  assumes "P s" and "\<And>x t. P t \<Longrightarrow> P (snd (f x t))"
  shows "P (snd (forEach f xs s))"
  using assms(1)
proof (induction xs arbitrary: s)
  case Nil
  then show ?case by simp
next
  case (Cons x xs)
  obtain r t where ft: "f x s = (r, t)" by (cases "f x s")
  from Cons.prems assms(2) [of s x] ft have pt: "P t" by simp
  show ?case
  proof (cases r)
    case (Return u)
    with ft Cons.IH [OF pt] show ?thesis by simp
  next
    case (Throw e)
    with ft pt show ?thesis by simp
  qed
qed

subsection \<open>Open handles belong to directory stubs\<close>

lemma handles_owned_upd [simp]:
  "handles_owned (s\<lparr>pFiles := fl\<rparr>) = handles_owned s"
  "handles_owned (s\<lparr>called := cl\<rparr>) = handles_owned s"
  "handles_owned (s\<lparr>next_oid := n\<rparr>) = handles_owned s"
  "handles_owned (s\<lparr>fs := f\<rparr>) = handles_owned s"
  by (simp_all add: handles_owned_def live_handles_def)

lemma handles_ownedI:
  "(\<And>h. h \<in> fst ` set (fs_watches s) \<Longrightarrow> \<exists>d w. map_of (pWatchers s) d = Some w \<and> handler w = Some h)
    \<Longrightarrow> handles_owned s"
  by (auto simp: handles_owned_def live_handles_def)

lemma handles_ownedD:
  "handles_owned s \<Longrightarrow> h \<in> fst ` set (fs_watches s)
    \<Longrightarrow> \<exists>d w. map_of (pWatchers s) d = Some w \<and> handler w = Some h"
  by (auto simp: handles_owned_def live_handles_def)

lemma pWatchDir_owned: "handles_owned s \<Longrightarrow> handles_owned (snd (pWatchDir dir s))"
proof (cases "map_of (pWatchers s) dir")
  case None
  assume "handles_owned s"
  with None show ?thesis by (simp add: pWatchDir_def)
next
  case (Some w)
  assume o: "handles_owned s"
  show ?thesis
  proof (cases "handler w \<noteq> None \<or> \<not> existsSync s dir")
    case True
    with Some o show ?thesis by (simp add: pWatchDir_def)
  next
    case False
    then have hn: "handler w = None" and ex: "fs s dir \<noteq> None"
      by (simp_all add: existsSync_def)
    have eq: "snd (pWatchDir dir s) =
        s\<lparr>fs_watches := fs_watches s @ [(next_handle s, dir)],
          next_handle := Suc (next_handle s),
          pWatchers := AList.update dir (w\<lparr>handler := Some (next_handle s)\<rparr>) (pWatchers s)\<rparr>"
      using Some hn ex by (auto simp: pWatchDir_def existsSync_def Fs_watch_def)
    show ?thesis
      unfolding eq
    proof (rule handles_ownedI)
      fix h
      assume "h \<in> fst ` set (fs_watches (s\<lparr>fs_watches := fs_watches s @ [(next_handle s, dir)],
          next_handle := Suc (next_handle s),
          pWatchers := AList.update dir (w\<lparr>handler := Some (next_handle s)\<rparr>) (pWatchers s)\<rparr>))"
      then consider "h = next_handle s" | "h \<in> fst ` set (fs_watches s)" by auto
      then show "\<exists>d w'. map_of (pWatchers (s\<lparr>fs_watches := fs_watches s @ [(next_handle s, dir)],
          next_handle := Suc (next_handle s),
          pWatchers := AList.update dir (w\<lparr>handler := Some (next_handle s)\<rparr>) (pWatchers s)\<rparr>)) d = Some w'
            \<and> handler w' = Some h"
      proof cases
        case 1
        then show ?thesis by (intro exI [of _ dir]) (simp add: update_conv')
      next
        case 2
        from handles_ownedD [OF o 2] obtain d w' where
          d: "map_of (pWatchers s) d = Some w'" "handler w' = Some h" by blast
        with Some hn have "d \<noteq> dir" by auto
        with d show ?thesis by (intro exI [of _ d]) (simp add: update_conv')
      qed
    qed
  qed
qed

lemma pUnwatchDir_owned: "handles_owned s \<Longrightarrow> handles_owned (snd (pUnwatchDir dir s))"
proof (cases "map_of (pWatchers s) dir")
  case None
  assume "handles_owned s"
  with None show ?thesis by (simp add: pUnwatchDir_def)
next
  case (Some w)
  assume o: "handles_owned s"
  show ?thesis
  proof (cases "handler w")
    case None
    with Some o show ?thesis by (simp add: pUnwatchDir_def)
  next
    case (Some h0)
    have eq: "snd (pUnwatchDir dir s) =
        s\<lparr>fs_watches := filter (\<lambda>x. fst x \<noteq> h0) (fs_watches s),
          pWatchers := AList.update dir (w\<lparr>handler := None\<rparr>) (pWatchers s)\<rparr>"
      using \<open>map_of (pWatchers s) dir = Some w\<close> Some by (simp add: pUnwatchDir_def close_def)
    show ?thesis
      unfolding eq
    proof (rule handles_ownedI)
      fix h
      assume "h \<in> fst ` set (fs_watches (s\<lparr>fs_watches := filter (\<lambda>x. fst x \<noteq> h0) (fs_watches s),
          pWatchers := AList.update dir (w\<lparr>handler := None\<rparr>) (pWatchers s)\<rparr>))"
      then have h: "h \<noteq> h0" "h \<in> fst ` set (fs_watches s)" by auto
      from handles_ownedD [OF o h(2)] obtain d w' where
        d: "map_of (pWatchers s) d = Some w'" "handler w' = Some h" by blast
      with \<open>map_of (pWatchers s) dir = Some w\<close> Some h(1) have "d \<noteq> dir" by auto
      with d show "\<exists>d w'. map_of (pWatchers (s\<lparr>fs_watches := filter (\<lambda>x. fst x \<noteq> h0) (fs_watches s),
          pWatchers := AList.update dir (w\<lparr>handler := None\<rparr>) (pWatchers s)\<rparr>)) d = Some w'
            \<and> handler w' = Some h"
        by (intro exI [of _ d]) (simp add: update_conv')
    qed
  qed
qed

text \<open>Editing a stub without touching its handle, adding one without a handle, dropping one without a handle.\<close>

lemma edit_stub_owned:
  assumes "handles_owned s" and "\<And>w. map_of (pWatchers s) d = Some w \<Longrightarrow> handler w' = handler w"
    and "map_of (pWatchers s) d = None \<Longrightarrow> handler w' = None"
  shows "handles_owned (s\<lparr>pWatchers := AList.update d w' (pWatchers s)\<rparr>)"
proof (rule handles_ownedI)
  fix h
  assume "h \<in> fst ` set (fs_watches (s\<lparr>pWatchers := AList.update d w' (pWatchers s)\<rparr>))"
  then have "h \<in> fst ` set (fs_watches s)" by simp
  from handles_ownedD [OF assms(1) this] obtain e w where
    e: "map_of (pWatchers s) e = Some w" "handler w = Some h" by blast
  show "\<exists>e w. map_of (pWatchers (s\<lparr>pWatchers := AList.update d w' (pWatchers s)\<rparr>)) e = Some w
          \<and> handler w = Some h"
  proof (cases "e = d")
    case True
    with e assms(2) have "handler w' = Some h" by simp
    then show ?thesis by (intro exI [of _ d]) (simp add: update_conv')
  next
    case False
    with e show ?thesis by (intro exI [of _ e]) (simp add: update_conv')
  qed
qed

lemma delete_stub_owned:
  assumes "handles_owned s" and "\<And>w. map_of (pWatchers s) d = Some w \<Longrightarrow> handler w = None"
  shows "handles_owned (s\<lparr>pWatchers := AList.delete d (pWatchers s)\<rparr>)"
proof (rule handles_ownedI)
  fix h
  assume "h \<in> fst ` set (fs_watches (s\<lparr>pWatchers := AList.delete d (pWatchers s)\<rparr>))"
  then have "h \<in> fst ` set (fs_watches s)" by simp
  from handles_ownedD [OF assms(1) this] obtain e w where
    e: "map_of (pWatchers s) e = Some w" "handler w = Some h" by blast
  with assms(2) have "e \<noteq> d" by auto
  with e show "\<exists>e w. map_of (pWatchers (s\<lparr>pWatchers := AList.delete d (pWatchers s)\<rparr>)) e = Some w
          \<and> handler w = Some h"
    by (intro exI [of _ e]) (simp add: delete_conv')
qed

subsection \<open>What every operation keeps: timer, options, ownership of the handles\<close>

lemma kept_upd [simp]:
  "kept own tm opts (s\<lparr>pFiles := fl\<rparr>) = kept own tm opts s"
  "kept own tm opts (s\<lparr>called := cl\<rparr>) = kept own tm opts s"
  "kept own tm opts (s\<lparr>next_oid := n\<rparr>) = kept own tm opts s"
  "kept own tm opts (s\<lparr>fs := f\<rparr>) = kept own tm opts s"
  by (simp_all add: kept_def)

lemma pWatchDir_frame:
  "pTimer (snd (pWatchDir d s)) = pTimer s \<and> pOptions (snd (pWatchDir d s)) = pOptions s"
  by (simp add: pWatchDir_def Fs_watch_def split: option.splits)

lemma pUnwatchDir_frame:
  "pTimer (snd (pUnwatchDir d s)) = pTimer s \<and> pOptions (snd (pUnwatchDir d s)) = pOptions s"
  by (simp add: pUnwatchDir_def close_def split: option.splits)

lemma pWatchDir_kept: "kept own tm opts s \<Longrightarrow> kept own tm opts (snd (pWatchDir d s))"
  using pWatchDir_frame [of d s] pWatchDir_owned [of s d] by (simp add: kept_def)

lemma pUnwatchDir_kept: "kept own tm opts s \<Longrightarrow> kept own tm opts (snd (pUnwatchDir d s))"
  using pUnwatchDir_frame [of d s] pUnwatchDir_owned [of s d] by (simp add: kept_def)

lemma edit_stub_kept:
  assumes "kept own tm opts s" and "\<And>w. map_of (pWatchers s) d = Some w \<Longrightarrow> handler w' = handler w"
    and "map_of (pWatchers s) d = None \<Longrightarrow> handler w' = None"
  shows "kept own tm opts (s\<lparr>pWatchers := AList.update d w' (pWatchers s)\<rparr>)"
  using assms edit_stub_owned [of s d w'] by (simp add: kept_def)

lemma delete_stub_kept:
  assumes "kept own tm opts s" and "\<And>w. map_of (pWatchers s) d = Some w \<Longrightarrow> handler w = None"
  shows "kept own tm opts (s\<lparr>pWatchers := AList.delete d (pWatchers s)\<rparr>)"
  using assms delete_stub_owned [of s d] by (simp add: kept_def)

lemma pGetFileStat_frame:
  "snd (pGetFileStat L f s) =
     s\<lparr>next_oid := (if fs s f = None then next_oid s else Suc (next_oid s))\<rparr>"
proof (cases "fs s f")
  case None
  then show ?thesis by (simp add: pGetFileStat_def existsSync_def)
next
  case (Some node)
  then show ?thesis
    by (cases node)
       (simp_all add: pGetFileStat_def existsSync_def statSync_def readFileSync_def stats_of_def
          isFile_def)
qed

lemma lib_pGetFileStat_frame:
  "snd (lib_pGetFileStat L f s) =
     s\<lparr>next_oid := (if fs s f = None then next_oid s else Suc (next_oid s))\<rparr>"
proof (cases "fs s f")
  case None
  then show ?thesis by (simp add: lib_pGetFileStat_def existsSync_def)
next
  case (Some node)
  then show ?thesis
    by (cases node)
       (simp_all add: lib_pGetFileStat_def existsSync_def statSync_def readFileSync_def stats_of_def)
qed

lemma pGetFileStat_kept: "kept own tm opts s \<Longrightarrow> kept own tm opts (snd (pGetFileStat L f s))"
  by (simp add: pGetFileStat_frame)

lemma lib_pGetFileStat_kept:
  "kept own tm opts s \<Longrightarrow> kept own tm opts (snd (lib_pGetFileStat L f s))"
  by (simp add: lib_pGetFileStat_frame)

lemma handle_watched_kept:
  assumes "\<And>t. kept own tm opts t \<Longrightarrow> kept own tm opts (snd (probe fullName t))"
    and "kept own tm opts s"
  shows "kept own tm opts (snd (handle_watched probe fullName evt file s))"
  unfolding handle_watched_def
  by (rule andThen_preserves)
     (use assms in \<open>auto simp: Let_def pCallback_def split: completion.splits\<close>)

lemma pHandleChange_kept:
  "kept own tm opts s \<Longrightarrow> kept own tm opts (snd (pHandleChange L dir evt file s))"
  by (auto simp: pHandleChange_def Let_def pCallback_def
        intro!: handle_watched_kept pGetFileStat_kept split: option.splits)

lemma lib_pHandleChange_kept:
  "kept own tm opts s \<Longrightarrow> kept own tm opts (snd (lib_pHandleChange L dir evt file s))"
  by (auto simp: lib_pHandleChange_def Let_def
        intro!: handle_watched_kept lib_pGetFileStat_kept split: option.splits)

lemma check_folder_kept:
  assumes "\<And>d e f t. kept own tm opts t \<Longrightarrow> kept own tm opts (snd (hc d e f t))"
    and "kept own tm opts s"
  shows "kept own tm opts (snd (check_folder hc dir s))"
proof (cases "map_of (pWatchers s) dir")
  case None
  with assms(2) show ?thesis by (simp add: check_folder_def)
next
  case (Some w)
  show ?thesis
  proof (cases "(handler w \<noteq> None) \<noteq> existsSync s dir")
    case False
    with Some assms(2) show ?thesis by (simp add: check_folder_def)
  next
    case True
    have "kept own tm opts (snd (andThen
            (if existsSync s dir then pWatchDir dir s else pUnwatchDir dir s)
            (\<lambda>_ s. forEach
                (\<lambda>fullName s.
                   if prefix dir fullName
                   then hc dir (Some ''rename'') (drop (length dir) fullName) s
                   else (Return (), s))
                (map fst (pFiles s)) s)))"
    proof (rule andThen_preserves)
      show "kept own tm opts (snd (if existsSync s dir then pWatchDir dir s else pUnwatchDir dir s))"
        using assms(2) by (simp add: pWatchDir_kept pUnwatchDir_kept)
    next
      fix x t
      assume "kept own tm opts t"
      then show "kept own tm opts (snd (forEach
                (\<lambda>fullName s.
                   if prefix dir fullName
                   then hc dir (Some ''rename'') (drop (length dir) fullName) s
                   else (Return (), s))
                (map fst (pFiles t)) t))"
        by (rule forEach_preserves) (simp add: assms(1))
    qed
    with Some True show ?thesis by (simp add: check_folder_def Let_def)
  qed
qed

lemma check_folders_kept:
  assumes "\<And>d e f t. kept own tm opts t \<Longrightarrow> kept own tm opts (snd (hc d e f t))"
    and "kept own tm opts s"
  shows "kept own tm opts (snd (check_folders hc s))"
  unfolding check_folders_def
  by (rule forEach_preserves [where P = "kept own tm opts"])
     (simp_all add: assms check_folder_kept)

lemmas andThen_kept = andThen_preserves [where P = "kept own tm opts" for own tm opts]
lemmas forEach_kept = forEach_preserves [where P = "kept own tm opts" for own tm opts]

lemma enter_group_kept:
  assumes "kept own tm opts s"
  shows "kept own tm opts (snd (enter_group dir wDir s))"
  unfolding enter_group_def
proof (rule andThen_kept)
  show "kept own tm opts (snd (if map_of (pWatchers s) dir = None
           then pWatchDir dir
                  (s\<lparr>pWatchers := AList.update dir
                       \<lparr>handler = None, count = 0, watchDir = False\<rparr> (pWatchers s)\<rparr>)
           else (Return (), s)))"
    using assms by (auto intro!: pWatchDir_kept edit_stub_kept)
next
  fix x t
  assume "kept own tm opts t"
  then show "kept own tm opts (snd (case map_of (pWatchers t) dir of
               None \<Rightarrow> (Throw TypeError, t)
             | Some w \<Rightarrow>
                 if wDir
                 then (Return (),
                       t\<lparr>pWatchers := AList.update dir (w\<lparr>watchDir := True\<rparr>) (pWatchers t)\<rparr>)
                 else (Return (),
                       t\<lparr>pWatchers := AList.update dir (w\<lparr>count := count w + 1\<rparr>) (pWatchers t)\<rparr>)))"
    by (auto intro!: edit_stub_kept split: option.splits)
qed

lemma watch_kept: "kept own tm opts s \<Longrightarrow> kept own tm opts (snd (watch L p s))"
  by (auto simp: watch_def Let_def
        intro!: andThen_kept pGetFileStat_kept enter_group_kept split: option.splits)

lemma lib_watch_kept: "kept own tm opts s \<Longrightarrow> kept own tm opts (snd (lib_watch L p s))"
  by (auto simp: lib_watch_def Let_def
        intro!: andThen_kept lib_pGetFileStat_kept enter_group_kept split: option.splits)

lemma leave_stub_kept:
  assumes "kept own tm opts s"
  shows "kept own tm opts (snd (case map_of (pWatchers s) key of
             None \<Rightarrow> (Throw TypeError, s)
           | Some w \<Rightarrow>
               let stub = (if c then w\<lparr>watchDir := False\<rparr> else w\<lparr>count := count w - 1\<rparr>);
                   s = s\<lparr>pWatchers := AList.update key stub (pWatchers s)\<rparr>
               in if count stub = 0 \<and> \<not> watchDir stub then (Throw ReferenceError, s)
                  else (Return (), s)))"
proof (cases "map_of (pWatchers s) key")
  case None
  with assms show ?thesis by simp
next
  case (Some w)
  have "kept own tm opts (s\<lparr>pWatchers := AList.update key stub (pWatchers s)\<rparr>)"
    if "handler stub = handler w" for stub
    using assms Some that by (auto intro!: edit_stub_kept)
  with Some show ?thesis by (simp add: Let_def)
qed

lemma unwatch_kept: "kept own tm opts s \<Longrightarrow> kept own tm opts (snd (unwatch L p s))"
proof -
  assume k: "kept own tm opts s"
  define full where "full = Path_resolve L p"
  define s1 where "s1 = s\<lparr>pFiles := AList.delete full (pFiles s)\<rparr>"
  define key where "key = (if map_of (pWatchers s1) full \<noteq> None then full
                   else Path_dirname L full @ ''/'')"
  have k1: "kept own tm opts s1" using k by (simp add: s1_def)
  show ?thesis
  proof (cases "map_of (pFiles s) full = None")
    case True
    with k show ?thesis by (simp add: unwatch_def full_def)
  next
    case False
    then have eq: "unwatch L p s =
        (case map_of (pWatchers s1) key of
             None \<Rightarrow> (Throw TypeError, s1)
           | Some w \<Rightarrow>
               let stub = (if map_of (pWatchers s1) full \<noteq> None
                           then w\<lparr>watchDir := False\<rparr> else w\<lparr>count := count w - 1\<rparr>);
                   s = s1\<lparr>pWatchers := AList.update key stub (pWatchers s1)\<rparr>
               in if count stub = 0 \<and> \<not> watchDir stub then (Throw ReferenceError, s)
                  else (Return (), s))"
      unfolding unwatch_def Let_def s1_def key_def full_def by auto
    show ?thesis unfolding eq by (rule leave_stub_kept [OF k1])
  qed
qed

lemma pUnwatchDir_closed:
  "map_of (pWatchers (snd (pUnwatchDir d s))) d = Some w \<Longrightarrow> handler w = None"
  by (auto simp: pUnwatchDir_def update_conv' split: option.splits)

lemma pUnwatchDir_keys:
  "(map_of (pWatchers (snd (pUnwatchDir d s))) e = None) = (map_of (pWatchers s) e = None)"
  by (auto simp: pUnwatchDir_def update_conv' split: option.splits)

lemma pUnwatchDir_others:
  "e \<noteq> d \<Longrightarrow> map_of (pWatchers (snd (pUnwatchDir d s))) e = map_of (pWatchers s) e"
  by (auto simp: pUnwatchDir_def update_conv' split: option.splits)

lemma pUnwatchDir_Return:
  "map_of (pWatchers s) d \<noteq> None \<Longrightarrow> fst (pUnwatchDir d s) = Return ()"
  by (auto simp: pUnwatchDir_def split: option.splits)

lemma lib_unwatch_kept: "kept own tm opts s \<Longrightarrow> kept own tm opts (snd (lib_unwatch L p s))"
proof -
  assume k: "kept own tm opts s"
  define full where "full = Path_resolve L p"
  define dir where "dir = Path_dirname L full @ ''/''"
  define s1 where "s1 = s\<lparr>pFiles := AList.delete full (pFiles s)\<rparr>"
  have k1: "kept own tm opts s1" using k by (simp add: s1_def)
  show ?thesis
  proof (cases "map_of (pFiles s) full = None")
    case True
    with k show ?thesis by (simp add: lib_unwatch_def full_def)
  next
    case False
    show ?thesis
    proof (cases "map_of (pWatchers s1) dir")
      case None
      with False k1 show ?thesis
        by (auto simp: lib_unwatch_def Let_def full_def [symmetric] dir_def [symmetric]
              s1_def [symmetric])
    next
      case (Some w)
      define s2 where "s2 = s1\<lparr>pWatchers := AList.update dir (w\<lparr>count := count w - 1\<rparr>) (pWatchers s1)\<rparr>"
      have k2: "kept own tm opts s2"
        unfolding s2_def using k1 Some by (auto intro!: edit_stub_kept)
      have "kept own tm opts (snd (andThen (pUnwatchDir dir s2) (\<lambda>_ s.
                         (Return (), s\<lparr>pWatchers := AList.delete dir (pWatchers s)\<rparr>))))"
      proof -
        obtain r t where rt: "pUnwatchDir dir s2 = (r, t)" by (cases "pUnwatchDir dir s2")
        have kt: "kept own tm opts t" using pUnwatchDir_kept [OF k2, of dir] rt by simp
        have cl: "\<And>w. map_of (pWatchers t) dir = Some w \<Longrightarrow> handler w = None"
          using pUnwatchDir_closed [of dir s2] rt by simp
        show ?thesis
          using rt kt cl by (cases r) (auto intro!: delete_stub_kept)
      qed
      with False Some k2 show ?thesis
        by (auto simp: lib_unwatch_def Let_def full_def [symmetric] dir_def [symmetric]
              s1_def [symmetric] s2_def [symmetric])
    qed
  qed
qed

subsection \<open>Reset closes every handle\<close>

lemma no_handles:
  assumes "handles_owned s" and "\<And>d w. map_of (pWatchers s) d = Some w \<Longrightarrow> handler w = None"
  shows "fs_watches s = []"
proof (rule ccontr)
  assume "fs_watches s \<noteq> []"
  then obtain x where "x \<in> set (fs_watches s)" by (cases "fs_watches s") auto
  then have "fst x \<in> fst ` set (fs_watches s)" by simp
  from handles_ownedD [OF assms(1) this] assms(2) show False by auto
qed

lemma unwatch_all:
  assumes "handles_owned s"
    and "\<And>d w. d \<notin> set ks \<Longrightarrow> map_of (pWatchers s) d = Some w \<Longrightarrow> handler w = None"
    and "\<And>d. d \<in> set ks \<Longrightarrow> map_of (pWatchers s) d \<noteq> None"
  shows "fst (forEach pUnwatchDir ks s) = Return () \<and> fs_watches (snd (forEach pUnwatchDir ks s)) = []"
  using assms
proof (induction ks arbitrary: s)
  case Nil
  then show ?case by (simp add: no_handles)
next
  case (Cons x xs)
  obtain r t where rt: "pUnwatchDir x s = (r, t)" by (cases "pUnwatchDir x s")
  have r: "r = Return ()" using pUnwatchDir_Return [of s x] Cons.prems(3) [of x] rt by simp
  have o: "handles_owned t" using pUnwatchDir_owned [OF Cons.prems(1), of x] rt by simp
  have a: "\<And>d w. d \<notin> set xs \<Longrightarrow> map_of (pWatchers t) d = Some w \<Longrightarrow> handler w = None"
  proof -
    fix d w assume d: "d \<notin> set xs" "map_of (pWatchers t) d = Some w"
    show "handler w = None"
    proof (cases "d = x")
      case True
      with d pUnwatchDir_closed [of x s w] rt show ?thesis by simp
    next
      case False
      with d pUnwatchDir_others [of d x s] rt Cons.prems(2) [of d w] show ?thesis by simp
    qed
  qed
  have b: "\<And>d. d \<in> set xs \<Longrightarrow> map_of (pWatchers t) d \<noteq> None"
    using pUnwatchDir_keys [of x s] rt Cons.prems(3) by simp
  from Cons.IH [OF o a b] rt r show ?case by simp
qed

lemma forEach_pUnwatchDir_Return:
  "(\<And>d. d \<in> set ks \<Longrightarrow> map_of (pWatchers s) d \<noteq> None) \<Longrightarrow> fst (forEach pUnwatchDir ks s) = Return ()"
proof (induction ks arbitrary: s)
  case Nil
  then show ?case by simp
next
  case (Cons x xs)
  obtain r t where rt: "pUnwatchDir x s = (r, t)" by (cases "pUnwatchDir x s")
  have r: "r = Return ()" using pUnwatchDir_Return [of s x] Cons.prems [of x] rt by simp
  have b: "\<And>d. d \<in> set xs \<Longrightarrow> map_of (pWatchers t) d \<noteq> None"
    using pUnwatchDir_keys [of x s] rt Cons.prems by simp
  from Cons.IH [OF b] rt r show ?case by simp
qed

lemma keys_present: "d \<in> set (map fst al) \<Longrightarrow> map_of al d \<noteq> None"
  by (simp add: map_of_eq_None_iff)

lemma reset_eq:
  "reset s = (Return (), (snd (forEach pUnwatchDir (map fst (pWatchers s)) s))\<lparr>pFiles := [], pWatchers := []\<rparr>)"
proof -
  have "fst (forEach pUnwatchDir (map fst (pWatchers s)) s) = Return ()"
    by (rule forEach_pUnwatchDir_Return) (rule keys_present)
  then show ?thesis
    by (cases "forEach pUnwatchDir (map fst (pWatchers s)) s") (simp add: reset_def)
qed

lemma reset_releases: "handles_owned s \<Longrightarrow> fs_watches (snd (reset s)) = []"
proof -
  assume o: "handles_owned s"
  have "fs_watches (snd (forEach pUnwatchDir (map fst (pWatchers s)) s)) = []"
  proof (rule conjunct2 [OF unwatch_all [OF o]])
    fix d w assume "d \<notin> set (map fst (pWatchers s))" "map_of (pWatchers s) d = Some w"
    then show "handler w = None" by (auto simp: map_of_eq_None_iff [symmetric])
  next
    fix d assume "d \<in> set (map fst (pWatchers s))"
    then show "map_of (pWatchers s) d \<noteq> None" by (rule keys_present)
  qed
  then show ?thesis by (simp add: reset_eq)
qed

lemma reset_kept: "kept own tm opts s \<Longrightarrow> kept own tm opts (snd (reset s))"
proof -
  assume k: "kept own tm opts s"
  have f: "kept False tm opts (snd (forEach pUnwatchDir (map fst (pWatchers s)) s))"
    by (rule forEach_preserves [where P = "kept False tm opts"])
       (use k in \<open>auto simp: kept_def pUnwatchDir_frame\<close>)
  show ?thesis
  proof (cases own)
    case False
    with f show ?thesis by (simp add: reset_eq kept_def)
  next
    case True
    with k have "handles_owned s" by (simp add: kept_def)
    from reset_releases [OF this] have "handles_owned (snd (reset s))"
      by (simp add: handles_owned_def)
    with f show ?thesis by (simp add: reset_eq kept_def)
  qed
qed

subsection \<open>Runs\<close>

lemma restore_entry_kept:
  assumes "\<And>p t. kept own tm opts t \<Longrightarrow> kept own tm opts (snd (w p t))"
    and "kept own tm opts s"
  shows "kept own tm opts (snd (restore_entry w files fullName s))"
  unfolding restore_entry_def
  by (rule andThen_kept)
     (use assms in \<open>auto simp: Let_def pCallback_def split: option.splits\<close>)

lemma restore_with_kept:
  assumes "\<And>p t. kept own tm opts t \<Longrightarrow> kept own tm opts (snd (w p t))"
    and "kept own tm opts s"
  shows "kept own tm opts (snd (restore_with w files s))"
  unfolding restore_with_def
proof (rule andThen_kept)
  show "kept own tm opts (snd (reset s))" using assms(2) by (rule reset_kept)
next
  fix x t
  assume "kept own tm opts t"
  then show "kept own tm opts (snd (forEach (restore_entry w files) (map fst files) t))"
    by (rule forEach_kept) (rule restore_entry_kept [OF assms(1)])
qed

lemma step_kept: "kept own tm opts s \<Longrightarrow> kept own tm opts (step L s a)"
  by (cases a)
     (simp_all add: step_def restore_def pCheckFolders_def watch_kept unwatch_kept reset_kept
        pHandleChange_kept restore_with_kept check_folders_kept)

lemma lib_step_kept: "kept own tm opts s \<Longrightarrow> kept own tm opts (lib_step L s a)"
  by (cases a)
     (simp_all add: lib_step_def lib_restore_def lib_pCheckFolders_def lib_watch_kept
        lib_unwatch_kept reset_kept lib_pHandleChange_kept restore_with_kept check_folders_kept)

lemma run_kept: "kept own tm opts s \<Longrightarrow> kept own tm opts (run L acts s)"
  unfolding run_def by (induction acts arbitrary: s) (simp_all add: step_kept)

lemma lib_run_kept: "kept own tm opts s \<Longrightarrow> kept own tm opts (lib_run L acts s)"
  unfolding lib_run_def by (induction acts arbitrary: s) (simp_all add: lib_step_kept)

lemma FileWatcher_kept:
  "kept True (pTimer (FileWatcher opts fs0)) opts (FileWatcher opts fs0)"
  by (simp add: kept_def FileWatcher_def handles_owned_def)

lemma lib_FileWatcher_kept:
  "kept True (pTimer (lib_FileWatcher opts fs0)) opts (lib_FileWatcher opts fs0)"
  by (simp add: kept_def lib_FileWatcher_def handles_owned_def)

lemma reachable_owned: "handles_owned (run L acts (FileWatcher opts fs0))"
  using run_kept [OF FileWatcher_kept [of opts fs0], where L = L and acts = acts]
  by (simp add: kept_def)

lemma lib_reachable_owned: "handles_owned (lib_run L acts (lib_FileWatcher opts fs0))"
  using lib_run_kept [OF lib_FileWatcher_kept [of opts fs0], where L = L and acts = acts]
  by (simp add: kept_def)

subsection \<open>A watcher with nothing registered stays silent\<close>

lemma reset_idle: "idle (snd (reset s))"
  by (simp add: reset_eq idle_def)

lemma idle_reset: "idle s \<Longrightarrow> snd (reset s) = s"
  by (simp add: idle_def reset_def)

lemma idle_step:
  "idle s \<Longrightarrow> \<not> calls_watch a \<Longrightarrow>
     idle (step L s a) \<and> called (step L s a) = called s \<and> fs_watches (step L s a) = fs_watches s"
  by (cases a)
     (auto simp: step_def idle_def unwatch_def reset_def pCheckFolders_def check_folders_def
        pHandleChange_def)

lemma idle_lib_step:
  "idle s \<Longrightarrow> \<not> calls_watch a \<Longrightarrow>
     idle (lib_step L s a) \<and> called (lib_step L s a) = called s
       \<and> fs_watches (lib_step L s a) = fs_watches s"
  by (cases a)
     (auto simp: lib_step_def idle_def lib_unwatch_def reset_def lib_pCheckFolders_def
        check_folders_def lib_pHandleChange_def)

lemma idle_run:
  "idle s \<Longrightarrow> \<forall>a\<in>set acts. \<not> calls_watch a \<Longrightarrow>
     idle (run L acts s) \<and> called (run L acts s) = called s \<and> fs_watches (run L acts s) = fs_watches s"
proof (induction acts arbitrary: s)
  case Nil
  then show ?case by (simp add: run_def)
next
  case (Cons a acts)
  from Cons.prems idle_step [of s a L] have
    st: "idle (step L s a)" "called (step L s a) = called s" "fs_watches (step L s a) = fs_watches s"
    by simp_all
  from Cons.IH [OF st(1)] Cons.prems(2) st show ?case by (simp add: run_def)
qed

lemma idle_lib_run:
  "idle s \<Longrightarrow> \<forall>a\<in>set acts. \<not> calls_watch a \<Longrightarrow>
     idle (lib_run L acts s) \<and> called (lib_run L acts s) = called s
       \<and> fs_watches (lib_run L acts s) = fs_watches s"
proof (induction acts arbitrary: s)
  case Nil
  then show ?case by (simp add: lib_run_def)
next
  case (Cons a acts)
  from Cons.prems idle_lib_step [of s a L] have
    st: "idle (lib_step L s a)" "called (lib_step L s a) = called s"
      "fs_watches (lib_step L s a) = fs_watches s"
    by simp_all
  from Cons.IH [OF st(1)] Cons.prems(2) st show ?case by (simp add: lib_run_def)
qed

lemma pUnwatchDir_rest:
  "called (snd (pUnwatchDir d s)) = called s \<and> fs (snd (pUnwatchDir d s)) = fs s \<and>
   next_oid (snd (pUnwatchDir d s)) = next_oid s \<and> next_handle (snd (pUnwatchDir d s)) = next_handle s \<and>
   pOptions (snd (pUnwatchDir d s)) = pOptions s \<and> pTimer (snd (pUnwatchDir d s)) = pTimer s"
  by (simp add: pUnwatchDir_def close_def split: option.splits)

lemma reset_frame:
  "pFiles (snd (reset s)) = [] \<and> pWatchers (snd (reset s)) = [] \<and>
   pOptions (snd (reset s)) = pOptions s \<and> pTimer (snd (reset s)) = pTimer s \<and>
   called (snd (reset s)) = called s \<and> fs (snd (reset s)) = fs s \<and>
   next_oid (snd (reset s)) = next_oid s \<and> next_handle (snd (reset s)) = next_handle s"
proof -
  have "(\<lambda>t. called t = called s \<and> fs t = fs s \<and> next_oid t = next_oid s \<and>
             next_handle t = next_handle s \<and> pOptions t = pOptions s \<and> pTimer t = pTimer s)
          (snd (forEach pUnwatchDir (map fst (pWatchers s)) s))"
    by (rule forEach_preserves) (simp_all add: pUnwatchDir_rest)
  then show ?thesis by (simp add: reset_eq)
qed

subsection \<open>Watching a registered path again\<close>

lemma pWatchDir_pFiles [simp]: "pFiles (snd (pWatchDir d s)) = pFiles s"
  by (simp add: pWatchDir_def Fs_watch_def split: option.splits)

lemma pWatchDir_found:
  "(map_of (pWatchers (snd (pWatchDir d s))) e = None) = (map_of (pWatchers s) e = None)"
  by (auto simp: pWatchDir_def Fs_watch_def update_conv' split: option.splits)

lemma pWatchDir_Return: "map_of (pWatchers s) d \<noteq> None \<Longrightarrow> fst (pWatchDir d s) = Return ()"
  by (auto simp: pWatchDir_def Fs_watch_def existsSync_def split: option.splits)

lemma enter_group_Return: "fst (enter_group dir wDir s) = Return ()"
proof (cases "map_of (pWatchers s) dir = None")
  case False
  then show ?thesis by (auto simp: enter_group_def)
next
  case True
  define s1 where "s1 = s\<lparr>pWatchers := AList.update dir
                    \<lparr>handler = None, count = 0, watchDir = False\<rparr> (pWatchers s)\<rparr>"
  have f: "map_of (pWatchers s1) dir \<noteq> None" by (simp add: s1_def update_conv')
  obtain r t where rt: "pWatchDir dir s1 = (r, t)" by (cases "pWatchDir dir s1")
  from pWatchDir_Return [OF f] rt have r: "r = Return ()" by simp
  from pWatchDir_found [of dir s1 dir] f rt have "map_of (pWatchers t) dir \<noteq> None" by simp
  with True rt r show ?thesis
    by (auto simp: enter_group_def s1_def [symmetric])
qed

lemma enter_group_pFiles: "pFiles (snd (enter_group dir wDir s)) = pFiles s"
  unfolding enter_group_def
  by (rule andThen_preserves [where P = "\<lambda>t. pFiles t = pFiles s"])
     (auto split: option.splits)

lemma pGetFileStat_Return: "\<exists>st. fst (pGetFileStat L f s) = Return st"
proof (cases "fs s f")
  case None
  then show ?thesis by (simp add: pGetFileStat_def existsSync_def)
next
  case (Some node)
  then show ?thesis
    by (cases node)
       (simp_all add: pGetFileStat_def existsSync_def statSync_def readFileSync_def stats_of_def
          isFile_def)
qed

lemma watch_registers: "map_of (pFiles (snd (watch L p s))) (Path_resolve L p) \<noteq> None"
proof (cases "map_of (pFiles s) (Path_resolve L p) = None")
  case False
  then show ?thesis by (auto simp: watch_def)
next
  case True
  obtain st where st: "fst (pGetFileStat L (Path_resolve L p) s) = Return st"
    using pGetFileStat_Return by blast
  then have g: "pGetFileStat L (Path_resolve L p) s =
      (Return st, s\<lparr>next_oid := (if fs s (Path_resolve L p) = None then next_oid s else Suc (next_oid s))\<rparr>)"
    using pGetFileStat_frame [of L "Path_resolve L p" s]
    by (cases "pGetFileStat L (Path_resolve L p) s") simp
  show ?thesis
    using True
    by (cases st) (simp_all add: watch_def Let_def g enter_group_pFiles update_conv')
qed

lemma watch_again: "watch L p (snd (watch L p s)) = (Return (), snd (watch L p s))"
  using watch_registers [of L p s] by (subst watch_def) (simp add: Let_def)

lemma lib_pGetFileStat_fst:
  "fst (lib_pGetFileStat L f (s\<lparr>next_oid := n\<rparr>)) = Throw e \<longleftrightarrow> fst (lib_pGetFileStat L f s) = Throw e"
proof (cases "fs s f")
  case None
  then show ?thesis by (simp add: lib_pGetFileStat_def existsSync_def)
next
  case (Some node)
  then show ?thesis
    by (cases node)
       (simp_all add: lib_pGetFileStat_def existsSync_def statSync_def readFileSync_def stats_of_def)
qed

lemma lib_watch_throws:
  assumes "fst (lib_pGetFileStat L (Path_resolve L p) s) = Throw e"
    and "map_of (pFiles s) (Path_resolve L p) = None"
  shows "lib_watch L p s = (Throw e, snd (lib_pGetFileStat L (Path_resolve L p) s))"
  using assms by (cases "lib_pGetFileStat L (Path_resolve L p) s") (simp add: lib_watch_def)

lemma lib_watch_outcome:
  "(fst (lib_watch L p s) = Return () \<and> map_of (pFiles (snd (lib_watch L p s))) (Path_resolve L p) \<noteq> None)
   \<or> (\<exists>e. fst (lib_pGetFileStat L (Path_resolve L p) s) = Throw e \<and>
        map_of (pFiles s) (Path_resolve L p) = None \<and>
        lib_watch L p s = (Throw e, snd (lib_pGetFileStat L (Path_resolve L p) s)))"
proof (cases "map_of (pFiles s) (Path_resolve L p) = None")
  case False
  then show ?thesis by (auto simp: lib_watch_def)
next
  case True
  obtain r t where rt: "lib_pGetFileStat L (Path_resolve L p) s = (r, t)"
    by (cases "lib_pGetFileStat L (Path_resolve L p) s")
  show ?thesis
  proof (cases r)
    case (Throw e)
    with True rt show ?thesis by (simp add: lib_watch_def)
  next
    case (Return st)
    with True rt show ?thesis
      by (simp add: lib_watch_def Let_def enter_group_pFiles enter_group_Return update_conv')
  qed
qed

lemma lib_watch_again:
  "pFiles (snd (lib_watch L p (snd (lib_watch L p s)))) = pFiles (snd (lib_watch L p s)) \<and>
   pWatchers (snd (lib_watch L p (snd (lib_watch L p s)))) = pWatchers (snd (lib_watch L p s)) \<and>
   (fst (lib_watch L p s) = Return () \<longrightarrow>
      lib_watch L p (snd (lib_watch L p s)) = (Return (), snd (lib_watch L p s)))"
proof -
  define f where "f = Path_resolve L p"
  from lib_watch_outcome [of L p s] show ?thesis
  proof
    assume "fst (lib_watch L p s) = Return () \<and>
        map_of (pFiles (snd (lib_watch L p s))) (Path_resolve L p) \<noteq> None"
    then show ?thesis by (subst (1 2 3) lib_watch_def) (simp add: Let_def)
  next
    assume "\<exists>e. fst (lib_pGetFileStat L (Path_resolve L p) s) = Throw e \<and>
        map_of (pFiles s) (Path_resolve L p) = None \<and>
        lib_watch L p s = (Throw e, snd (lib_pGetFileStat L (Path_resolve L p) s))"
    then obtain e where e: "fst (lib_pGetFileStat L f s) = Throw e"
      "map_of (pFiles s) f = None" "lib_watch L p s = (Throw e, snd (lib_pGetFileStat L f s))"
      by (auto simp: f_def)
    define n where "n = (if fs s f = None then next_oid s else Suc (next_oid s))"
    have s1: "snd (lib_watch L p s) = s\<lparr>next_oid := n\<rparr>"
      using e(3) lib_pGetFileStat_frame [of L f s] by (simp add: n_def)
    have th: "fst (lib_pGetFileStat L f (s\<lparr>next_oid := n\<rparr>)) = Throw e"
      using e(1) by (simp add: lib_pGetFileStat_fst)
    have "lib_watch L p (s\<lparr>next_oid := n\<rparr>) =
            (Throw e, snd (lib_pGetFileStat L f (s\<lparr>next_oid := n\<rparr>)))"
      unfolding f_def by (rule lib_watch_throws) (use th e(2) in \<open>simp_all add: f_def\<close>)
    then have "pFiles (snd (lib_watch L p (s\<lparr>next_oid := n\<rparr>))) = pFiles s \<and>
               pWatchers (snd (lib_watch L p (s\<lparr>next_oid := n\<rparr>))) = pWatchers s"
      by (simp add: lib_pGetFileStat_frame)
    with s1 e(3) show ?thesis by simp
  qed
qed

subsection \<open>The probe and the handler, as equations\<close>

lemma pGetFileStat_eq:
  "pGetFileStat L f s =
     (case fs s f of
        None \<Rightarrow> (Return None, s)
      | Some node \<Rightarrow>
          (Return (Some (probed L (opt_validate (pOptions s)) node (next_oid s))),
           s\<lparr>next_oid := Suc (next_oid s)\<rparr>))"
proof (cases "fs s f")
  case None
  then show ?thesis by (simp add: pGetFileStat_def existsSync_def)
next
  case (Some node)
  then show ?thesis
    by (cases node)
       (simp_all add: pGetFileStat_def existsSync_def statSync_def readFileSync_def stats_of_def
          isFile_def probed_def)
qed

lemma lib_pGetFileStat_eq:
  "lib_pGetFileStat L f s =
     (case fs s f of
        None \<Rightarrow> (Return None, s)
      | Some node \<Rightarrow>
          (case node of
             Directory n t \<Rightarrow>
               if opt_validate (pOptions s) then (Throw EISDIR, s\<lparr>next_oid := Suc (next_oid s)\<rparr>)
               else (Return (Some (probed L False node (next_oid s))), s\<lparr>next_oid := Suc (next_oid s)\<rparr>)
           | RegularFile buf t \<Rightarrow>
               (Return (Some (probed L (opt_validate (pOptions s)) node (next_oid s))),
                s\<lparr>next_oid := Suc (next_oid s)\<rparr>)))"
proof (cases "fs s f")
  case None
  then show ?thesis by (simp add: lib_pGetFileStat_def existsSync_def)
next
  case (Some node)
  then show ?thesis
    by (cases node)
       (simp_all add: lib_pGetFileStat_def existsSync_def statSync_def readFileSync_def stats_of_def
          probed_def)
qed

lemma handle_watched_rename:
  assumes "probe fullName s = (Return nstat, s1)" and "pFiles s1 = pFiles s"
    and "map_of (pFiles s) fullName = Some f"
  shows "handle_watched probe fullName (Some ''rename'') f s =
           (Return (),
            s1\<lparr>pFiles := AList.update fullName (f\<lparr>stat := nstat\<rparr>) (pFiles s),
               called := called s1 @ [(Some (rename_event (stat f) nstat), name f, js_of_stat nstat)]\<rparr>)"
  using assms
  by (auto simp: handle_watched_def classify_def pCheckFileExistenceChange_def truthy_def
        kFileRenameEventName_def kFileCreateEventName_def kFileRemoveEventName_def
        rename_event_def pCallback_def Let_def)

lemma handle_watched_change:
  assumes "probe fullName s = (Return (Some new), s1)" and "pFiles s1 = pFiles s"
    and "opt_validate (pOptions s1)" and "stat f = Some old"
  shows "handle_watched probe fullName (Some ''change'') f s =
           (Return (),
            s1\<lparr>pFiles := AList.update fullName (f\<lparr>stat := Some new\<rparr>) (pFiles s),
               called := called s1 @
                 (if stat_size new = stat_size old \<and> stat_crc32 new = stat_crc32 old then []
                  else [(Some ''change'', name f, StatsObj new)])\<rparr>)"
  using assms
  by (auto simp: handle_watched_def classify_def truthy_def js_of_stat_def
        kFileRenameEventName_def kFileChangeEventName_def pCallback_def Let_def)


subsection \<open>Missing paths\<close>

text \<open>
  The probe of \<^verbatim>\<open>part_000\<close> returns for every path: \<^verbatim>\<open>null\<close> exactly when the path is
  missing, and a stat with a fingerprint only for a regular file when validation is on.
\<close>

lemma pGetFileStat_total:
  "\<exists>st. fst (pGetFileStat L f s) = Return st \<and> (st = None \<longleftrightarrow> fs s f = None) \<and>
        (\<forall>v. st = Some v \<longrightarrow> stat_crc32 v \<noteq> None \<longrightarrow> isFile v \<and> opt_validate (pOptions s))"
proof (cases "fs s f")
  case None
  then show ?thesis by (simp add: pGetFileStat_eq)
next
  case (Some node)
  then show ?thesis
    by (cases node) (simp_all add: pGetFileStat_eq probed_def isFile_def)
qed

text \<open>
  Watching a path that does not exist: \<^verbatim>\<open>part_000\<close> stores the stub and then throws, before
  any directory stub is made; \<^verbatim>\<open>lib/index.js\<close> returns with the stub stored and the stub of
  the parent directory in place.
\<close>

lemma watch_absent:
  assumes "map_of (pFiles s) (Path_resolve L p) = None" and "fs s (Path_resolve L p) = None"
  shows "watch L p s =
           (Throw TypeError,
            s\<lparr>pFiles := AList.update (Path_resolve L p)
                 \<lparr>name = (if opt_fullName (pOptions s) then Path_resolve L p else p), stat = None\<rparr>
                 (pFiles s)\<rparr>)"
  using assms by (simp add: watch_def Let_def pGetFileStat_eq)

lemma enter_group_found: "map_of (pWatchers (snd (enter_group dir wDir s))) dir \<noteq> None"
proof -
  define s1 where "s1 = s\<lparr>pWatchers := AList.update dir
                    \<lparr>handler = None, count = 0, watchDir = False\<rparr> (pWatchers s)\<rparr>"
  have f: "map_of (pWatchers s1) dir \<noteq> None" by (simp add: s1_def update_conv')
  have "(\<lambda>t. map_of (pWatchers t) dir \<noteq> None) (snd (enter_group dir wDir s))"
    unfolding enter_group_def
  proof (rule andThen_preserves)
    show "map_of (pWatchers (snd (if map_of (pWatchers s) dir = None
        then pWatchDir dir (s\<lparr>pWatchers := AList.update dir
                    \<lparr>handler = None, count = 0, watchDir = False\<rparr> (pWatchers s)\<rparr>)
        else (Return (), s)))) dir \<noteq> None"
      using f pWatchDir_found [of dir s1 dir] by (auto simp: s1_def)
  next
    fix x t
    assume "map_of (pWatchers t) dir \<noteq> None"
    then show "map_of (pWatchers (snd (case map_of (pWatchers t) dir of
            None \<Rightarrow> (Throw TypeError, t)
          | Some w \<Rightarrow>
              if wDir
              then (Return (),
                    t\<lparr>pWatchers := AList.update dir (w\<lparr>watchDir := True\<rparr>) (pWatchers t)\<rparr>)
              else (Return (),
                    t\<lparr>pWatchers := AList.update dir (w\<lparr>count := count w + 1\<rparr>) (pWatchers t)\<rparr>)))) dir \<noteq> None"
      by (auto simp: update_conv')
  qed
  then show ?thesis .
qed

lemma lib_watch_absent:
  assumes "map_of (pFiles s) (Path_resolve L p) = None" and "fs s (Path_resolve L p) = None"
  shows "fst (lib_watch L p s) = Return () \<and>
         map_of (pFiles (snd (lib_watch L p s))) (Path_resolve L p) =
           Some \<lparr>name = (if opt_fullName (pOptions s) then Path_resolve L p else p), stat = None\<rparr> \<and>
         map_of (pWatchers (snd (lib_watch L p s))) (Path_dirname L (Path_resolve L p) @ ''/'') \<noteq> None"
  using assms
  by (simp add: lib_watch_def Let_def lib_pGetFileStat_eq enter_group_Return enter_group_pFiles
        enter_group_found update_conv')

subsection \<open>Running the definitions on concrete input\<close>

lemmas eval_defs =
  existsSync_def statSync_def readFileSync_def stats_of_def Fs_watch_def close_def
  posix_def posix_dirname_def fs_demo_def fs_dir_only_def fs_none_def
  validating_def default_options_def FileWatcher_def lib_FileWatcher_def
  watching_f_def lib_watching_f_def
  andThen_def pGetFileStat_def lib_pGetFileStat_def isFile_def isDirectory_def
  pWatchDir_def pUnwatchDir_def enter_group_def watch_def lib_watch_def unwatch_def lib_unwatch_def
  pCallback_def pCheckFileExistenceChange_def classify_def handle_watched_def
  pHandleChange_def lib_pHandleChange_def check_folder_def check_folders_def
  pCheckFolders_def lib_pCheckFolders_def reset_def save_def restore_event_def restore_entry_def
  restore_with_def restore_def lib_restore_def step_def lib_step_def run_def lib_run_def
  truthy_def js_of_stat_def js_of_crc32_def
  kFileChangeEventName_def kFileRenameEventName_def kFileRemoveEventName_def kFileCreateEventName_def
  crc32c_def crc32c_byte_def crc32c_bit_def Let_def

subsection \<open>The reference counts of \<^verbatim>\<open>lib/index.js\<close>\<close>

text \<open>
  In \<^verbatim>\<open>lib/index.js\<close> a directory stub never stays with a count of zero: \<^verbatim>\<open>watch\<close> makes
  the stub and increments its count in one go, \<^verbatim>\<open>unwatch\<close> deletes the stub when the
  count reaches zero.
\<close>

lemma counted_upd [simp]:
  "counted (s\<lparr>pFiles := fl\<rparr>) = counted s"
  "counted (s\<lparr>called := cl\<rparr>) = counted s"
  "counted (s\<lparr>next_oid := n\<rparr>) = counted s"
  "counted (s\<lparr>fs := f\<rparr>) = counted s"
  by (simp_all add: counted_def)

lemma pWatchDir_counted: "counted s \<Longrightarrow> counted (snd (pWatchDir d s))"
  by (auto simp: counted_def pWatchDir_def Fs_watch_def update_conv' split: option.splits if_splits)

lemma pUnwatchDir_counted: "counted s \<Longrightarrow> counted (snd (pUnwatchDir d s))"
  by (auto simp: counted_def pUnwatchDir_def close_def update_conv' split: option.splits if_splits)

lemma pWatchDir_count:
  "map_of (pWatchers s) d = Some w \<Longrightarrow>
     \<exists>w'. map_of (pWatchers (snd (pWatchDir d s))) d = Some w' \<and> count w' = count w"
  by (auto simp: pWatchDir_def Fs_watch_def update_conv' split: option.splits if_splits)

lemma pWatchDir_others: "e \<noteq> d \<Longrightarrow> map_of (pWatchers (snd (pWatchDir d s))) e = map_of (pWatchers s) e"
  by (auto simp: pWatchDir_def Fs_watch_def update_conv' split: option.splits)

lemma enter_group_counted:
  assumes "counted s"
  shows "counted (snd (enter_group dir False s))"
proof -
  define s1 where "s1 = s\<lparr>pWatchers := AList.update dir
                    \<lparr>handler = None, count = 0, watchDir = False\<rparr> (pWatchers s)\<rparr>"
  define Q where "Q = (\<lambda>t::state. (\<forall>e w. e \<noteq> dir \<longrightarrow> map_of (pWatchers t) e = Some w \<longrightarrow> 0 < count w) \<and>
                          (\<forall>w. map_of (pWatchers t) dir = Some w \<longrightarrow> 0 \<le> count w))"
  have q1: "Q (snd (if map_of (pWatchers s) dir = None then pWatchDir dir s1 else (Return (), s)))"
  proof (cases "map_of (pWatchers s) dir = None")
    case False
    have "0 \<le> count w" if "map_of (pWatchers s) dir = Some w" for w
      using assms that by (force simp: counted_def intro: order_less_imp_le)
    with assms False show ?thesis by (auto simp: Q_def counted_def)
  next
    case True
    have d: "map_of (pWatchers s1) dir = Some \<lparr>handler = None, count = 0, watchDir = False\<rparr>"
      by (simp add: s1_def update_conv')
    have o: "\<And>e. e \<noteq> dir \<Longrightarrow> map_of (pWatchers s1) e = map_of (pWatchers s) e"
      by (simp add: s1_def update_conv')
    from pWatchDir_count [OF d] pWatchDir_others [of _ dir s1] o assms True show ?thesis
      by (auto simp: Q_def counted_def)
  qed
  have "counted (snd (andThen
       (if map_of (pWatchers s) dir = None then pWatchDir dir s1 else (Return (), s))
       (\<lambda>_ s.
          case map_of (pWatchers s) dir of
            None \<Rightarrow> (Throw TypeError, s)
          | Some w \<Rightarrow>
              if False
              then (Return (),
                    s\<lparr>pWatchers := AList.update dir (w\<lparr>watchDir := True\<rparr>) (pWatchers s)\<rparr>)
              else (Return (),
                    s\<lparr>pWatchers := AList.update dir (w\<lparr>count := count w + 1\<rparr>) (pWatchers s)\<rparr>))))"
  proof (cases "if map_of (pWatchers s) dir = None then pWatchDir dir s1 else (Return (), s)")
    case (Pair r t)
    with q1 have qt: "Q t" by simp
    have r: "r = Return ()"
    proof (cases "map_of (pWatchers s) dir = None")
      case False
      with Pair show ?thesis by simp
    next
      case True
      have "map_of (pWatchers s1) dir \<noteq> None" by (simp add: s1_def update_conv')
      from pWatchDir_Return [OF this] True Pair show ?thesis by simp
    qed
    show ?thesis
    proof (cases "map_of (pWatchers t) dir")
      case None
      have "counted t"
        unfolding counted_def
      proof (intro allI impI)
        fix d w assume dw: "map_of (pWatchers t) d = Some w"
        with None have "d \<noteq> dir" by auto
        with qt dw show "0 < count w" by (simp add: Q_def)
      qed
      with None show ?thesis unfolding Pair r by simp
    next
      case (Some w0)
      with qt have "0 \<le> count w0" by (simp add: Q_def)
      then have "counted (t\<lparr>pWatchers := AList.update dir (w0\<lparr>count := count w0 + 1\<rparr>) (pWatchers t)\<rparr>)"
        using qt by (auto simp: Q_def counted_def update_conv' split: if_splits)
      with Some show ?thesis unfolding Pair r by simp
    qed
  qed
  then show ?thesis unfolding enter_group_def s1_def .
qed

lemma lib_pGetFileStat_counted: "counted s \<Longrightarrow> counted (snd (lib_pGetFileStat L f s))"
  by (simp add: lib_pGetFileStat_frame)

lemma lib_watch_counted: "counted s \<Longrightarrow> counted (snd (lib_watch L p s))"
  by (auto simp: lib_watch_def Let_def
        intro!: andThen_preserves [where P = counted] lib_pGetFileStat_counted enter_group_counted)

lemma lib_unwatch_counted: "counted s \<Longrightarrow> counted (snd (lib_unwatch L p s))"
proof -
  assume c: "counted s"
  define full where "full = Path_resolve L p"
  define dir where "dir = Path_dirname L full @ ''/''"
  define s1 where "s1 = s\<lparr>pFiles := AList.delete full (pFiles s)\<rparr>"
  have c1: "counted s1" using c by (simp add: s1_def)
  show ?thesis
  proof (cases "map_of (pFiles s) full = None")
    case True
    with c show ?thesis by (simp add: lib_unwatch_def full_def)
  next
    case False
    show ?thesis
    proof (cases "map_of (pWatchers s1) dir")
      case None
      with False c1 show ?thesis
        by (auto simp: lib_unwatch_def Let_def full_def [symmetric] dir_def [symmetric]
              s1_def [symmetric])
    next
      case (Some w)
      define s2 where "s2 = s1\<lparr>pWatchers := AList.update dir (w\<lparr>count := count w - 1\<rparr>) (pWatchers s1)\<rparr>"
      have o2: "\<And>e v. e \<noteq> dir \<Longrightarrow> map_of (pWatchers s2) e = Some v \<Longrightarrow> 0 < count v"
        using c1 by (auto simp: s2_def counted_def update_conv')
      show ?thesis
      proof (cases "count w - 1 = 0")
        case False
        from c1 Some have "0 < count w" by (auto simp: counted_def)
        with False have "0 < count w - 1" by simp
        with o2 have "counted s2" by (auto simp: counted_def s2_def update_conv' split: if_splits)
        with \<open>map_of (pFiles s) full \<noteq> None\<close> Some False show ?thesis
          by (auto simp: lib_unwatch_def Let_def full_def [symmetric] dir_def [symmetric]
              s1_def [symmetric] s2_def [symmetric])
      next
        case True
        obtain r t where rt: "pUnwatchDir dir s2 = (r, t)" by (cases "pUnwatchDir dir s2")
        have "\<And>e v. e \<noteq> dir \<Longrightarrow> map_of (pWatchers t) e = Some v \<Longrightarrow> 0 < count v"
          using pUnwatchDir_others [of _ dir s2] rt o2 by simp
        then have "counted (t\<lparr>pWatchers := AList.delete dir (pWatchers t)\<rparr>)"
          by (auto simp: counted_def delete_conv' split: if_splits)
        with rt have "counted (snd (andThen (pUnwatchDir dir s2) (\<lambda>_ s.
                         (Return (), s\<lparr>pWatchers := AList.delete dir (pWatchers s)\<rparr>))))"
          using pUnwatchDir_Return [of s2 dir]
          by (cases r) (auto simp: s2_def update_conv')
        with \<open>map_of (pFiles s) full \<noteq> None\<close> Some True show ?thesis
          unfolding s2_def
          by (auto simp: lib_unwatch_def Let_def full_def [symmetric] dir_def [symmetric]
              s1_def [symmetric])
      qed
    qed
  qed
qed

lemma lib_pHandleChange_counted:
  "counted s \<Longrightarrow> counted (snd (lib_pHandleChange L dir evt file s))"
  unfolding lib_pHandleChange_def handle_watched_def Let_def
  by (auto intro!: andThen_preserves [where P = counted] lib_pGetFileStat_counted
        simp: pCallback_def split: option.splits completion.splits)

lemma check_folder_counted:
  assumes "\<And>d e f t. counted t \<Longrightarrow> counted (snd (hc d e f t))" and "counted s"
  shows "counted (snd (check_folder hc dir s))"
  unfolding check_folder_def Let_def
  by (auto intro!: andThen_preserves [where P = counted] forEach_preserves [where P = counted]
        pWatchDir_counted pUnwatchDir_counted assms split: option.splits)

lemma reset_counted: "counted (snd (reset s))"
  by (simp add: reset_eq counted_def)

lemma lib_restore_counted: "counted (snd (lib_restore L files s))"
  unfolding lib_restore_def restore_with_def restore_entry_def
  by (rule andThen_preserves [where P = counted])
     (auto intro!: reset_counted forEach_preserves [where P = counted]
        andThen_preserves [where P = counted] lib_watch_counted
        simp: Let_def pCallback_def split: option.splits)

lemma lib_step_counted: "counted s \<Longrightarrow> counted (lib_step L s a)"
  by (cases a)
     (auto simp: lib_step_def lib_pCheckFolders_def check_folders_def
        intro!: lib_watch_counted lib_unwatch_counted reset_counted lib_restore_counted
          lib_pHandleChange_counted forEach_preserves [where P = counted] check_folder_counted)

lemma lib_run_counted: "counted s \<Longrightarrow> counted (lib_run L acts s)"
  unfolding lib_run_def by (induction acts arbitrary: s) (simp_all add: lib_step_counted)

lemma lib_groups_counted:
  "map_of (pWatchers (lib_run L acts (lib_FileWatcher opts fs0))) d = Some w \<Longrightarrow> 0 < count w"
proof -
  have "counted (lib_FileWatcher opts fs0)" by (simp add: counted_def lib_FileWatcher_def)
  from lib_run_counted [OF this, of L acts] show
    "map_of (pWatchers (lib_run L acts (lib_FileWatcher opts fs0))) d = Some w \<Longrightarrow> 0 < count w"
    by (auto simp: counted_def)
qed

subsection \<open>Two calls of watch\<close>

text \<open>
  In \<^verbatim>\<open>part_000\<close> a second \<^verbatim>\<open>watch(p)\<close> right after the first returns normally and leaves
  the whole state as the first call left it, whatever the first call did (it registers the
  path even when it throws). In \<^verbatim>\<open>lib/index.js\<close> the registry and the directory stubs after
  two calls are those after one call, and the second call returns normally and changes
  nothing whenever the first call returned.
\<close>

lemma watch_twice:
  "watch L p (snd (watch L p s)) = (Return (), snd (watch L p s)) \<and>
   pFiles (snd (lib_watch L p (snd (lib_watch L p s)))) = pFiles (snd (lib_watch L p s)) \<and>
   pWatchers (snd (lib_watch L p (snd (lib_watch L p s)))) = pWatchers (snd (lib_watch L p s)) \<and>
   (fst (lib_watch L p s) = Return () \<longrightarrow>
      lib_watch L p (snd (lib_watch L p s)) = (Return (), snd (lib_watch L p s)))"
  using watch_again [of L p s] lib_watch_again [of L p s] by simp

section \<open>Claims that hold on both copies\<close>

text \<open>
  C9 (reset finality). Take any run of a watcher from its construction and call \<^verbatim>\<open>reset\<close>:
  no native handle is open when it returns. Whatever happens afterwards that is not a call of
  \<^verbatim>\<open>watch\<close> (or of \<^verbatim>\<open>restore\<close>, which calls it): file-system changes, timer ticks, deliveries
  (even late ones), \<^verbatim>\<open>unwatch\<close>, \<^verbatim>\<open>getFileStat\<close>, \<^verbatim>\<open>save\<close>, \<^verbatim>\<open>reset\<close>: the callback is not
  invoked and no handle is opened. This holds for both copies.
\<close>

theorem reset_finality:
  assumes "\<forall>a\<in>set later. \<not> calls_watch a"
  shows "fs_watches (snd (reset (run L acts (FileWatcher opts fs0)))) = [] \<and>
         fs_watches (run L later (snd (reset (run L acts (FileWatcher opts fs0))))) = [] \<and>
         called (run L later (snd (reset (run L acts (FileWatcher opts fs0))))) =
           called (run L acts (FileWatcher opts fs0)) \<and>
         fs_watches (snd (reset (lib_run L acts (lib_FileWatcher opts fs0)))) = [] \<and>
         fs_watches (lib_run L later (snd (reset (lib_run L acts (lib_FileWatcher opts fs0))))) = [] \<and>
         called (lib_run L later (snd (reset (lib_run L acts (lib_FileWatcher opts fs0))))) =
           called (lib_run L acts (lib_FileWatcher opts fs0))"
proof -
  have a: "fs_watches (snd (reset (run L acts (FileWatcher opts fs0)))) = []"
    by (rule reset_releases [OF reachable_owned])
  have b: "fs_watches (snd (reset (lib_run L acts (lib_FileWatcher opts fs0)))) = []"
    by (rule reset_releases [OF lib_reachable_owned])
  from idle_run [OF reset_idle assms, of L "run L acts (FileWatcher opts fs0)"]
       idle_lib_run [OF reset_idle assms, of L "lib_run L acts (lib_FileWatcher opts fs0)"]
       a b reset_frame [of "run L acts (FileWatcher opts fs0)"]
       reset_frame [of "lib_run L acts (lib_FileWatcher opts fs0)"]
  show ?thesis by simp
qed

theorem reset_finality_witness:
  "fs_watches (run posix [Watch ''/a/f''] (FileWatcher default_options (fs_demo [0] 11))) = [(0, ''/a/'')] \<and>
   fs_watches (snd (reset (run posix [Watch ''/a/f''] (FileWatcher default_options (fs_demo [0] 11))))) = [] \<and>
   called (run posix [FsChange fs_none, Tick, Native ''/a/'' (Some ''rename'') ''f'', Unwatch ''/a/f'', Reset]
             (snd (reset (run posix [Watch ''/a/f''] (FileWatcher default_options (fs_demo [0] 11)))))) =
     called (run posix [Watch ''/a/f''] (FileWatcher default_options (fs_demo [0] 11)))"
proof -
  have h: "\<forall>a\<in>set [FsChange fs_none, Tick, Native ''/a/'' (Some ''rename'') ''f'', Unwatch ''/a/f'', Reset].
      \<not> calls_watch a"
    by simp
  have o: "fs_watches (run posix [Watch ''/a/f''] (FileWatcher default_options (fs_demo [0] 11))) =
      [(0, ''/a/'')]"
    by (simp add: eval_defs)
  from h o reset_finality [OF h, of posix "[Watch ''/a/f'']" default_options "fs_demo [0] 11"]
  show ?thesis by blast
qed

text \<open>
  C10 (the timer outlives reset). The constructor of \<^verbatim>\<open>lib/index.js\<close> installs the timer,
  the one of \<^verbatim>\<open>part_000\<close> installs it for a positive interval. No action of a run, \<^verbatim>\<open>reset\<close>
  included, changes the timer or the options, in either copy. \<^verbatim>\<open>reset\<close> empties the two
  maps and leaves options, timer, callback log, file system and counters as they were. A
  tick after \<^verbatim>\<open>reset\<close> runs over the empty maps: it returns and changes nothing.
\<close>

theorem reset_keeps_timer:
  "pTimer (lib_FileWatcher opts fs0) = Some (opt_interval opts) \<and>
   pTimer (FileWatcher opts fs0) =
     (if 0 < opt_interval opts then Some (opt_interval opts) else None) \<and>
   pTimer (run L acts s) = pTimer s \<and> pOptions (run L acts s) = pOptions s \<and>
   pTimer (lib_run L acts s) = pTimer s \<and> pOptions (lib_run L acts s) = pOptions s \<and>
   pFiles (snd (reset s)) = [] \<and> pWatchers (snd (reset s)) = [] \<and>
   pOptions (snd (reset s)) = pOptions s \<and> pTimer (snd (reset s)) = pTimer s \<and>
   called (snd (reset s)) = called s \<and> fs (snd (reset s)) = fs s \<and>
   next_oid (snd (reset s)) = next_oid s \<and> next_handle (snd (reset s)) = next_handle s \<and>
   pCheckFolders L (snd (reset s)) = (Return (), snd (reset s)) \<and>
   lib_pCheckFolders L (snd (reset s)) = (Return (), snd (reset s)) \<and>
   step L (snd (reset s)) Tick = snd (reset s) \<and>
   lib_step L (snd (reset s)) Tick = snd (reset s)"
proof -
  have k: "kept False (pTimer s) (pOptions s) s" by (simp add: kept_def)
  have t: "pCheckFolders L (snd (reset s)) = (Return (), snd (reset s))"
          "lib_pCheckFolders L (snd (reset s)) = (Return (), snd (reset s))"
    using reset_frame [of s] by (simp_all add: pCheckFolders_def lib_pCheckFolders_def check_folders_def)
  from run_kept [OF k, of L acts] lib_run_kept [OF k, of L acts] reset_frame [of s] t
  show ?thesis
    by (simp add: kept_def FileWatcher_def lib_FileWatcher_def step_def lib_step_def)
qed

section \<open>Claims that hold after a correction\<close>

text \<open>
  C5 as the spec states it: driven by a raw \<^verbatim>\<open>rename\<close>, the classifier emits nothing when
  the file existed before and exists now. It does emit: \<^verbatim>\<open>pCheckFileExistenceChange\<close>
  returns \<^verbatim>\<open>null\<close> and \<^verbatim>\<open>null || evt\<close> is the raw event, so the callback gets \<^verbatim>\<open>rename\<close>.
  Here \<^verbatim>\<open>/a/f\<close> is watched, exists and has not changed.
\<close>

theorem rename_without_existence_change_is_forwarded:
  "map_of (pFiles (watching_f default_options [0])) ''/a/f'' =
     Some \<lparr>name = ''/a/f'',
           stat = Some \<lparr>stat_kind = KFile, stat_size = 1,
                         stat_mtime = \<lparr>oid = 0, time_ms = 11\<rparr>, stat_crc32 = None\<rparr>\<rparr> \<and>
   fs (watching_f default_options [0]) ''/a/f'' = Some (RegularFile [0] 11) \<and>
   called (watching_f default_options [0]) = [] \<and>
   called (snd (pHandleChange posix ''/a/'' (Some ''rename'') ''f'' (watching_f default_options [0]))) =
     [(Some ''rename'', ''/a/f'',
       StatsObj \<lparr>stat_kind = KFile, stat_size = 1,
                 stat_mtime = \<lparr>oid = 1, time_ms = 11\<rparr>, stat_crc32 = None\<rparr>)] \<and>
   called (snd (lib_pHandleChange posix ''/a/'' (Some ''rename'') ''f'' (lib_watching_f default_options [0]))) =
     [(Some ''rename'', ''/a/f'',
       StatsObj \<lparr>stat_kind = KFile, stat_size = 1,
                 stat_mtime = \<lparr>oid = 1, time_ms = 11\<rparr>, stat_crc32 = None\<rparr>)]"
  by (simp add: eval_defs)

text \<open>
  C5 amended. For a watched path and a raw \<^verbatim>\<open>rename\<close>, \<^verbatim>\<open>pHandleChange\<close> of \<^verbatim>\<open>part_000\<close>
  returns normally, replaces the stored stat by the newly probed one (\<^verbatim>\<open>null\<close> for a missing
  path, else the stat of the file or directory, with the fingerprint of a regular file when
  validation is on) and invokes the callback exactly once, with that stat: with \<^verbatim>\<open>create\<close> if
  the path was absent and is present, with \<^verbatim>\<open>remove\<close> if it was present and is absent, and
  with the raw \<^verbatim>\<open>rename\<close> if its existence did not change. \<^verbatim>\<open>pHandleChange\<close> of
  \<^verbatim>\<open>lib/index.js\<close> does the same whenever validation is off or the path is not a directory.
\<close>

theorem rename_classified:
  assumes "map_of (pFiles s) (dir @ file) = Some f"
  shows "(let new = (case fs s (dir @ file) of
                       None \<Rightarrow> None
                     | Some (RegularFile buf t) \<Rightarrow>
                         Some \<lparr>stat_kind = KFile, stat_size = length buf,
                               stat_mtime = \<lparr>oid = next_oid s, time_ms = t\<rparr>,
                               stat_crc32 = (if opt_validate (pOptions s) then Some (crc32 L buf)
                                             else None)\<rparr>
                     | Some (Directory k t) \<Rightarrow>
                         Some \<lparr>stat_kind = KDirectory, stat_size = k,
                               stat_mtime = \<lparr>oid = next_oid s, time_ms = t\<rparr>,
                               stat_crc32 = None\<rparr>);
              after = (Return (),
                 s\<lparr>pFiles := AList.update (dir @ file) (f\<lparr>stat := new\<rparr>) (pFiles s),
                   called := called s @
                     [(Some (if stat f = None \<and> new \<noteq> None then ''create''
                             else if stat f \<noteq> None \<and> new = None then ''remove''
                             else ''rename''),
                       name f, js_of_stat new)],
                   next_oid := (if fs s (dir @ file) = None then next_oid s
                                else Suc (next_oid s))\<rparr>)
          in pHandleChange L dir (Some ''rename'') file s = after \<and>
             (\<not> opt_validate (pOptions s) \<or> (\<forall>k t. fs s (dir @ file) \<noteq> Some (Directory k t))
                \<longrightarrow> lib_pHandleChange L dir (Some ''rename'') file s = after))"
proof (cases "fs s (dir @ file)")
  case None
  then have p: "pGetFileStat L (dir @ file) s = (Return None, s)"
    and q: "lib_pGetFileStat L (dir @ file) s = (Return None, s)"
    by (simp_all add: pGetFileStat_eq lib_pGetFileStat_eq)
  from handle_watched_rename [where probe = "pGetFileStat L", OF p _ assms]
       handle_watched_rename [where probe = "lib_pGetFileStat L", OF q _ assms]
       assms None
  show ?thesis
    by (simp add: pHandleChange_def lib_pHandleChange_def Let_def rename_event_def)
next
  case (Some node)
  define new where "new = probed L (opt_validate (pOptions s)) node (next_oid s)"
  from Some have p: "pGetFileStat L (dir @ file) s =
      (Return (Some new), s\<lparr>next_oid := Suc (next_oid s)\<rparr>)"
    by (simp add: pGetFileStat_eq new_def)
  have a: "pHandleChange L dir (Some ''rename'') file s =
      (Return (),
       s\<lparr>pFiles := AList.update (dir @ file) (f\<lparr>stat := Some new\<rparr>) (pFiles s),
         called := called s @ [(Some (rename_event (stat f) (Some new)), name f, js_of_stat (Some new))],
         next_oid := Suc (next_oid s)\<rparr>)"
    using handle_watched_rename [where probe = "pGetFileStat L", OF p _ assms] assms
    by (simp add: pHandleChange_def)
  have b: "lib_pHandleChange L dir (Some ''rename'') file s =
      (Return (),
       s\<lparr>pFiles := AList.update (dir @ file) (f\<lparr>stat := Some new\<rparr>) (pFiles s),
         called := called s @ [(Some (rename_event (stat f) (Some new)), name f, js_of_stat (Some new))],
         next_oid := Suc (next_oid s)\<rparr>)"
    if c: "\<not> opt_validate (pOptions s) \<or> (\<forall>k t. fs s (dir @ file) \<noteq> Some (Directory k t))"
  proof -
    from Some c have q: "lib_pGetFileStat L (dir @ file) s =
        (Return (Some new), s\<lparr>next_oid := Suc (next_oid s)\<rparr>)"
      by (cases node) (auto simp: lib_pGetFileStat_eq new_def probed_def)
    from handle_watched_rename [where probe = "lib_pGetFileStat L", OF q _ assms] assms
    show ?thesis by (simp add: lib_pHandleChange_def)
  qed
  show ?thesis
  proof (cases node)
    case (RegularFile buf t)
    with Some a b show ?thesis
      by (simp add: Let_def new_def probed_def rename_event_def)
  next
    case (Directory k t)
    with Some a b show ?thesis
      by (simp add: Let_def new_def probed_def rename_event_def)
  qed
qed

theorem rename_classified_witness:
  "pHandleChange posix ''/a/'' (Some ''rename'') ''f''
       ((watching_f default_options [0])\<lparr>fs := fs_dir_only\<rparr>) =
     (Return (),
      (watching_f default_options [0])
        \<lparr>fs := fs_dir_only,
          pFiles := AList.update ''/a/f''
            \<lparr>name = ''/a/f'', stat = None\<rparr> (pFiles (watching_f default_options [0])),
          called := [(Some ''remove'', ''/a/f'', Null)]\<rparr>) \<and>
   lib_pHandleChange posix ''/a/'' (Some ''rename'') ''f''
       ((watching_f default_options [0])\<lparr>fs := fs_dir_only\<rparr>) =
     (Return (),
      (watching_f default_options [0])
        \<lparr>fs := fs_dir_only,
          pFiles := AList.update ''/a/f''
            \<lparr>name = ''/a/f'', stat = None\<rparr> (pFiles (watching_f default_options [0])),
          called := [(Some ''remove'', ''/a/f'', Null)]\<rparr>)"
proof -
  define s where "s = (watching_f default_options [0])\<lparr>fs := fs_dir_only\<rparr>"
  define f where "f = \<lparr>name = ''/a/f'',
           stat = Some \<lparr>stat_kind = KFile, stat_size = 1,
                         stat_mtime = \<lparr>oid = 0, time_ms = 11\<rparr>, stat_crc32 = None\<rparr>\<rparr>"
  have h: "map_of (pFiles s) (''/a/'' @ ''f'') = Some f"
    unfolding s_def f_def by (simp add: eval_defs)
  have v: "\<not> opt_validate (pOptions s) \<or> (\<forall>k t. fs s (''/a/'' @ ''f'') \<noteq> Some (Directory k t))"
    unfolding s_def by (simp add: eval_defs)
  have a: "fs s (''/a/'' @ ''f'') = None"
    unfolding s_def by (simp add: eval_defs)
  have c: "called s = []"
    unfolding s_def by (simp add: eval_defs)
  have p: "pFiles s = pFiles (watching_f default_options [0])"
    by (simp add: s_def)
  from rename_classified [OF h, of posix] v a c p show ?thesis
    unfolding s_def [symmetric]
    by (simp add: Let_def f_def js_of_stat_def s_def)
qed

text \<open>
  C6 as the spec states it: with validation on, a file rewritten with different bytes of the
  same size produces one \<^verbatim>\<open>change\<close> event. Two contents of five bytes with the same CRC-32C
  show that it need not: the rewrite is suppressed, like one with identical bytes.
\<close>

theorem same_size_rewrite_can_be_suppressed:
  "[0, 0, 0, 0, 0] \<noteq> [1, 3, 131, 107, 242 :: byte] \<and>
   length [0, 0, 0, 0, 0 :: byte] = length [1, 3, 131, 107, 242 :: byte] \<and>
   crc32c [0, 0, 0, 0, 0] = crc32c [1, 3, 131, 107, 242] \<and>
   called (snd (pHandleChange posix ''/a/'' (Some ''change'') ''f''
     ((watching_f validating [0, 0, 0, 0, 0])\<lparr>fs := fs_demo [1, 3, 131, 107, 242] 13\<rparr>))) = [] \<and>
   called (snd (lib_pHandleChange posix ''/a/'' (Some ''change'') ''f''
     ((lib_watching_f validating [0, 0, 0, 0, 0])\<lparr>fs := fs_demo [1, 3, 131, 107, 242] 13\<rparr>))) = []"
  by (simp add: eval_defs)

text \<open>
  C6 amended. With validation on, a raw \<^verbatim>\<open>change\<close> for a watched regular file whose stored
  stat exists: the stored stat is replaced by the new stat in every case; the callback is not
  invoked if the new size and fingerprint equal the stored ones, and is invoked exactly once,
  with \<^verbatim>\<open>change\<close> and the new stat, if the size or the fingerprint differs. Both copies.
\<close>

theorem change_validated:
  assumes "map_of (pFiles s) (dir @ file) = Some f" and "stat f = Some old"
    and "opt_validate (pOptions s)" and "fs s (dir @ file) = Some (RegularFile buf t)"
  shows "(let new = \<lparr>stat_kind = KFile, stat_size = length buf,
                     stat_mtime = \<lparr>oid = next_oid s, time_ms = t\<rparr>,
                     stat_crc32 = Some (crc32 L buf)\<rparr>;
              after = (Return (),
                 s\<lparr>pFiles := AList.update (dir @ file) (f\<lparr>stat := Some new\<rparr>) (pFiles s),
                   called := called s @
                     (if length buf = stat_size old \<and> Some (crc32 L buf) = stat_crc32 old then []
                      else [(Some ''change'', name f, StatsObj new)]),
                   next_oid := Suc (next_oid s)\<rparr>)
          in pHandleChange L dir (Some ''change'') file s = after \<and>
             lib_pHandleChange L dir (Some ''change'') file s = after)"
proof -
  define new where "new = probed L True (RegularFile buf t) (next_oid s)"
  have p: "pGetFileStat L (dir @ file) s = (Return (Some new), s\<lparr>next_oid := Suc (next_oid s)\<rparr>)"
    using assms(3,4) by (simp add: pGetFileStat_eq new_def)
  have q: "lib_pGetFileStat L (dir @ file) s = (Return (Some new), s\<lparr>next_oid := Suc (next_oid s)\<rparr>)"
    using assms(3,4) by (simp add: lib_pGetFileStat_eq new_def)
  have n: "new = \<lparr>stat_kind = KFile, stat_size = length buf,
                     stat_mtime = \<lparr>oid = next_oid s, time_ms = t\<rparr>,
                     stat_crc32 = Some (crc32 L buf)\<rparr>"
    by (simp add: new_def probed_def)
  from handle_watched_change [where probe = "pGetFileStat L", OF p _ _ assms(2)]
       handle_watched_change [where probe = "lib_pGetFileStat L", OF q _ _ assms(2)]
       assms(1,3)
  show ?thesis
    by (simp add: pHandleChange_def lib_pHandleChange_def Let_def n)
qed

theorem change_validated_witness:
  "pHandleChange posix ''/a/'' (Some ''change'') ''f''
       ((watching_f validating [0])\<lparr>fs := fs_demo [1] 13\<rparr>) =
     (Return (),
      (watching_f validating [0])
        \<lparr>fs := fs_demo [1] 13,
          pFiles := AList.update ''/a/f''
            \<lparr>name = ''/a/f'',
              stat = Some \<lparr>stat_kind = KFile, stat_size = 1,
                           stat_mtime = \<lparr>oid = 1, time_ms = 13\<rparr>, stat_crc32 = Some (crc32c [1])\<rparr>\<rparr>
            (pFiles (watching_f validating [0])),
          called := [(Some ''change'', ''/a/f'',
                      StatsObj \<lparr>stat_kind = KFile, stat_size = 1,
                                stat_mtime = \<lparr>oid = 1, time_ms = 13\<rparr>,
                                stat_crc32 = Some (crc32c [1])\<rparr>)],
          next_oid := 2\<rparr>)"
proof -
  define s where "s = (watching_f validating [0])\<lparr>fs := fs_demo [1] 13\<rparr>"
  define old where "old = \<lparr>stat_kind = KFile, stat_size = 1,
                         stat_mtime = \<lparr>oid = 0, time_ms = 11\<rparr>, stat_crc32 = Some (crc32c [0])\<rparr>"
  define f where "f = \<lparr>name = ''/a/f'', stat = Some old\<rparr>"
  have h1: "map_of (pFiles s) (''/a/'' @ ''f'') = Some f"
    unfolding s_def f_def old_def by (simp add: eval_defs)
  have h2: "stat f = Some old" by (simp add: f_def)
  have h3: "opt_validate (pOptions s)" unfolding s_def by (simp add: eval_defs)
  have h4: "fs s (''/a/'' @ ''f'') = Some (RegularFile [1] 13)" unfolding s_def by (simp add: eval_defs)
  have c: "called s = []" unfolding s_def by (simp add: eval_defs)
  have n: "next_oid s = 1" unfolding s_def by (simp add: eval_defs)
  have d: "crc32c [1] \<noteq> crc32c [0]" by (simp add: eval_defs)
  have p: "pFiles s = pFiles (watching_f validating [0])" by (simp add: s_def)
  from change_validated [OF h1 h2 h3 h4, of posix] c n d p show ?thesis
    unfolding s_def [symmetric]
    by (simp add: Let_def f_def old_def posix_def s_def)
qed

section \<open>Claims that the code breaks\<close>

text \<open>
  C1 (snapshot round trip). \<^verbatim>\<open>/a/f\<close> is watched and saved, then \<^verbatim>\<open>restore\<close> is called.
  With validation on and the content of the file changed in between, the callback is invoked
  once with \<^verbatim>\<open>change\<close>, but its third argument is \<^verbatim>\<open>nstat.crc32\<close>, the fingerprint of the
  new content, not the new stat. With validation off and nothing changed in between, the
  callback is invoked all the same, with \<^verbatim>\<open>change\<close> and \<^verbatim>\<open>undefined\<close>: the two \<^verbatim>\<open>mtime\<close>
  are different \<^verbatim>\<open>Date\<close> objects, which \<^verbatim>\<open>!=\<close> tells apart whatever their time. Both copies
  do the same.
\<close>

theorem restore_round_trip_events:
  "called (watching_f validating [0]) = [] \<and>
   called (snd (restore posix (save (watching_f validating [0]))
                  ((watching_f validating [0])\<lparr>fs := fs_demo [1] 13\<rparr>))) =
     [(Some ''change'', ''/a/f'', Number (crc32c [1]))] \<and>
   called (watching_f default_options [0]) = [] \<and>
   called (snd (restore posix (save (watching_f default_options [0]))
                  (watching_f default_options [0]))) =
     [(Some ''change'', ''/a/f'', Undefined)] \<and>
   called (snd (lib_restore posix (save (lib_watching_f validating [0]))
                  ((lib_watching_f validating [0])\<lparr>fs := fs_demo [1] 13\<rparr>))) =
     [(Some ''change'', ''/a/f'', Number (crc32c [1]))] \<and>
   called (snd (lib_restore posix (save (lib_watching_f default_options [0]))
                  (lib_watching_f default_options [0]))) =
     [(Some ''change'', ''/a/f'', Undefined)]"
  by (simp add: eval_defs)

text \<open>
  C2 (nothing throws). \<^verbatim>\<open>restore\<close> of a snapshot whose file has since been removed throws a
  \<^verbatim>\<open>TypeError\<close> in both copies (in \<^verbatim>\<open>lib/index.js\<close> at \<^verbatim>\<open>nstat.crc32\<close>, in \<^verbatim>\<open>part_000\<close>
  already inside \<^verbatim>\<open>watch\<close>); \<^verbatim>\<open>unwatch\<close> of the only watched file and \<^verbatim>\<open>watch\<close> of a missing
  path throw in \<^verbatim>\<open>part_000\<close>; the handler of a raw \<^verbatim>\<open>change\<close> event throws in both copies
  when validation is on and the file is gone.
\<close>

theorem operations_throw:
  "fst (restore posix (save (watching_f default_options [0]))
          ((watching_f default_options [0])\<lparr>fs := fs_dir_only\<rparr>)) = Throw TypeError \<and>
   fst (lib_restore posix (save (lib_watching_f default_options [0]))
          ((lib_watching_f default_options [0])\<lparr>fs := fs_dir_only\<rparr>)) = Throw TypeError \<and>
   fst (unwatch posix ''/a/f'' (watching_f default_options [0])) = Throw ReferenceError \<and>
   fst (watch posix ''/a/f'' (FileWatcher default_options fs_dir_only)) = Throw TypeError \<and>
   fst (pHandleChange posix ''/a/'' (Some ''change'') ''f''
          ((watching_f validating [0])\<lparr>fs := fs_dir_only\<rparr>)) = Throw TypeError \<and>
   fst (lib_pHandleChange posix ''/a/'' (Some ''change'') ''f''
          ((lib_watching_f validating [0])\<lparr>fs := fs_dir_only\<rparr>)) = Throw TypeError"
  by (simp add: eval_defs)

text \<open>
  C3 (watching a missing path). The directory \<^verbatim>\<open>/a\<close> exists, the file \<^verbatim>\<open>/a/f\<close> does not.
  \<^verbatim>\<open>watch\<close> of \<^verbatim>\<open>part_000\<close> stores the stub with the absent stat and then throws a
  \<^verbatim>\<open>TypeError\<close> (\<^verbatim>\<open>stub.stat.isDirectory()\<close> on \<^verbatim>\<open>null\<close>); no directory stub is made and no
  handle opened. \<^verbatim>\<open>watch\<close> of \<^verbatim>\<open>lib/index.js\<close> returns, with the stub stored and the
  directory watched.
\<close>

theorem watch_missing_path:
  "fst (watch posix ''/a/f'' (FileWatcher default_options fs_dir_only)) = Throw TypeError \<and>
   pFiles (snd (watch posix ''/a/f'' (FileWatcher default_options fs_dir_only))) =
     [(''/a/f'', \<lparr>name = ''/a/f'', stat = None\<rparr>)] \<and>
   pWatchers (snd (watch posix ''/a/f'' (FileWatcher default_options fs_dir_only))) = [] \<and>
   fs_watches (snd (watch posix ''/a/f'' (FileWatcher default_options fs_dir_only))) = [] \<and>
   fst (lib_watch posix ''/a/f'' (lib_FileWatcher default_options fs_dir_only)) = Return () \<and>
   pFiles (snd (lib_watch posix ''/a/f'' (lib_FileWatcher default_options fs_dir_only))) =
     [(''/a/f'', \<lparr>name = ''/a/f'', stat = None\<rparr>)] \<and>
   pWatchers (snd (lib_watch posix ''/a/f'' (lib_FileWatcher default_options fs_dir_only))) =
     [(''/a/'', \<lparr>handler = Some 0, count = 1, watchDir = False\<rparr>)] \<and>
   fs_watches (snd (lib_watch posix ''/a/f'' (lib_FileWatcher default_options fs_dir_only))) =
     [(0, ''/a/'')]"
  by (simp add: eval_defs)

text \<open>
  C4 (directory share). \<^verbatim>\<open>/a/f\<close> and \<^verbatim>\<open>/a/g\<close> are watched: one stub, for \<^verbatim>\<open>/a/\<close>, with
  count 2; after \<^verbatim>\<open>unwatch\<close> of the first, count 1. \<^verbatim>\<open>unwatch\<close> of the second sets the count
  to 0 and then, in \<^verbatim>\<open>part_000\<close>, throws a \<^verbatim>\<open>ReferenceError\<close> at \<^verbatim>\<open>this.pUnwatchDir(dir)\<close>:
  the stub stays, with count 0 and \<open>watchDir\<close> unset, and its handle stays open. In
  \<^verbatim>\<open>lib/index.js\<close> the same call returns, the stub is gone and the handle closed
  (and \<open>lib_groups_counted\<close> has, for every run of that copy, that a stub which exists has a
  positive count).
\<close>

theorem unwatch_last_file:
  "pWatchers (run posix [Watch ''/a/f'', Watch ''/a/g''] (FileWatcher default_options (fs_demo [0] 11))) =
     [(''/a/'', \<lparr>handler = Some 0, count = 2, watchDir = False\<rparr>)] \<and>
   pWatchers (run posix [Watch ''/a/f'', Watch ''/a/g'', Unwatch ''/a/f'']
                (FileWatcher default_options (fs_demo [0] 11))) =
     [(''/a/'', \<lparr>handler = Some 0, count = 1, watchDir = False\<rparr>)] \<and>
   fst (unwatch posix ''/a/g''
          (run posix [Watch ''/a/f'', Watch ''/a/g'', Unwatch ''/a/f'']
             (FileWatcher default_options (fs_demo [0] 11)))) = Throw ReferenceError \<and>
   pWatchers (run posix [Watch ''/a/f'', Watch ''/a/g'', Unwatch ''/a/f'', Unwatch ''/a/g'']
                (FileWatcher default_options (fs_demo [0] 11))) =
     [(''/a/'', \<lparr>handler = Some 0, count = 0, watchDir = False\<rparr>)] \<and>
   fs_watches (run posix [Watch ''/a/f'', Watch ''/a/g'', Unwatch ''/a/f'', Unwatch ''/a/g'']
                 (FileWatcher default_options (fs_demo [0] 11))) = [(0, ''/a/'')] \<and>
   pWatchers (lib_run posix [Watch ''/a/f'', Watch ''/a/g'', Unwatch ''/a/f'']
                (lib_FileWatcher default_options (fs_demo [0] 11))) =
     [(''/a/'', \<lparr>handler = Some 0, count = 1, watchDir = False\<rparr>)] \<and>
   fst (lib_unwatch posix ''/a/g''
          (lib_run posix [Watch ''/a/f'', Watch ''/a/g'', Unwatch ''/a/f'']
             (lib_FileWatcher default_options (fs_demo [0] 11)))) = Return () \<and>
   pWatchers (lib_run posix [Watch ''/a/f'', Watch ''/a/g'', Unwatch ''/a/f'', Unwatch ''/a/g'']
                (lib_FileWatcher default_options (fs_demo [0] 11))) = [] \<and>
   fs_watches (lib_run posix [Watch ''/a/f'', Watch ''/a/g'', Unwatch ''/a/f'', Unwatch ''/a/g'']
                 (lib_FileWatcher default_options (fs_demo [0] 11))) = []"
  by (simp add: eval_defs)

text \<open>
  C7 (the probe never raises). With validation on, the probe of \<^verbatim>\<open>lib/index.js\<close> reads
  whatever exists, so for the directory \<^verbatim>\<open>/a\<close> the read throws \<^verbatim>\<open>EISDIR\<close>. The probe of
  \<^verbatim>\<open>part_000\<close> tests \<^verbatim>\<open>isFile\<close> first and returns the stat of the directory, without a
  fingerprint (\<open>pGetFileStat_total\<close> has this for every path and state).
\<close>

theorem lib_probe_of_directory:
  "fst (lib_pGetFileStat posix ''/a'' (lib_FileWatcher validating (fs_demo [0] 11))) = Throw EISDIR \<and>
   fst (pGetFileStat posix ''/a'' (FileWatcher validating (fs_demo [0] 11))) =
     Return (Some \<lparr>stat_kind = KDirectory, stat_size = 4096,
                    stat_mtime = \<lparr>oid = 0, time_ms = 7\<rparr>, stat_crc32 = None\<rparr>)"
  by (simp add: eval_defs)

text \<open>
  C8 (idempotent watch). With validation on, \<^verbatim>\<open>watch\<close> of \<^verbatim>\<open>lib/index.js\<close> on the directory
  \<^verbatim>\<open>/a\<close> throws \<^verbatim>\<open>EISDIR\<close> out of the probe before anything is registered, and so does the
  second call: it is an error, not a silent no-op, though the registry stays as it was.
  \<^verbatim>\<open>watch\<close> of \<^verbatim>\<open>part_000\<close> returns both times, the second call changing nothing
  (\<open>watch_twice\<close> has this for every path and state).
\<close>

theorem lib_watch_directory_twice:
  "fst (lib_watch posix ''/a'' (lib_FileWatcher validating (fs_demo [0] 11))) = Throw EISDIR \<and>
   fst (lib_watch posix ''/a''
          (snd (lib_watch posix ''/a'' (lib_FileWatcher validating (fs_demo [0] 11))))) = Throw EISDIR \<and>
   pFiles (snd (lib_watch posix ''/a''
          (snd (lib_watch posix ''/a'' (lib_FileWatcher validating (fs_demo [0] 11)))))) = [] \<and>
   pWatchers (snd (lib_watch posix ''/a''
          (snd (lib_watch posix ''/a'' (lib_FileWatcher validating (fs_demo [0] 11)))))) = [] \<and>
   fst (watch posix ''/a'' (FileWatcher validating (fs_demo [0] 11))) = Return () \<and>
   fst (watch posix ''/a''
          (snd (watch posix ''/a'' (FileWatcher validating (fs_demo [0] 11))))) = Return () \<and>
   pWatchers (snd (watch posix ''/a''
          (snd (watch posix ''/a'' (FileWatcher validating (fs_demo [0] 11)))))) =
     [(''/a'', \<lparr>handler = Some 0, count = 0, watchDir = True\<rparr>)]"
  by (simp add: eval_defs)

end
